theory Spec2Isabelle
  imports Main "HOL-Library.Sublist"
begin

section \<open>Gemini auto-pick and retry orchestration of api/answer-question.ts\<close>

text \<open>
  The development embeds the call orchestration of \<^verbatim>\<open>api/answer-question.ts\<close>:
  \<^verbatim>\<open>fetchWithTimeout\<close>, \<^verbatim>\<open>isRetryableStatus\<close>, \<^verbatim>\<open>postJsonWithRetry\<close>,
  \<^verbatim>\<open>shortModelName\<close>, \<^verbatim>\<open>modelSupportsGenerateContent\<close>, \<^verbatim>\<open>listModels\<close>,
  \<^verbatim>\<open>isGeminiNotFoundOrUnsupported\<close>, \<^verbatim>\<open>generateContent\<close> and
  \<^verbatim>\<open>generateWithAutoPick\<close>.

  Conventions of the embedding.
  \<^item> A JavaScript string is a \<^typ>\<open>string\<close>; a character stands for one code unit below 256.
  \<^item> A thrown error is represented by its message, the only part of it the code reads
    (\<^verbatim>\<open>String(e?.message ?? e)\<close>); a function that may throw returns \<open>string + 'a\<close>,
    with \<open>Inl\<close> the message of the error thrown.
  \<^item> JavaScript numbers that count (HTTP status, loop index, retry budget, milliseconds) are
    natural numbers; \<^verbatim>\<open>800 * Math.pow(2, i)\<close> is exact in double precision for every
    \<open>i\<close> below 1000, far beyond the budget of 3 used by the only call site.
  \<^item> The network is a parameter: \<open>fetch\<close> maps a request and the state of the outside
    world to an outcome and the next state of the world. \<^verbatim>\<open>JSON.parse\<close> is a parameter
    too. Every theorem holds for all such parameters.
  \<^item> The observable effects (HTTP requests issued, \<^verbatim>\<open>sleep\<close> calls and
    \<^verbatim>\<open>console.warn\<close> lines) are appended, in order, to a log threaded with the world.
\<close>

subsection \<open>JSON values and the runtime shape of a model descriptor\<close>

datatype json =
    JNull
  | JBool bool
  | JNum int
  | JStr string
  | JArr "json list"
  | JObj "(string \<times> json) list"

text \<open>\<^verbatim>\<open>v.k\<close> for a JSON value \<open>v\<close> that is neither null nor undefined; \<open>None\<close> is
  \<^verbatim>\<open>undefined\<close>. None of the property names the code reads is a built-in property of a
  string, number, boolean or array.\<close>

fun get_prop :: "string \<Rightarrow> json \<Rightarrow> json option" where
  "get_prop k (JObj kvs) = map_of kvs k"
| "get_prop k _ = None"

text \<open>\<^verbatim>\<open>v?.k\<close>: undefined when \<open>v\<close> is null or undefined.\<close>

fun opt_prop :: "string \<Rightarrow> json option \<Rightarrow> json option" where
  "opt_prop k None = None"
| "opt_prop k (Some JNull) = None"
| "opt_prop k (Some v) = get_prop k v"

text \<open>\<^verbatim>\<open>v[0]\<close> for a value that is neither null nor undefined.\<close>

fun index0 :: "json \<Rightarrow> json option" where
  "index0 (JArr xs) = (case xs of [] \<Rightarrow> None | x # _ \<Rightarrow> Some x)"
| "index0 (JStr s) = (case s of [] \<Rightarrow> None | c # _ \<Rightarrow> Some (JStr [c]))"
| "index0 (JObj kvs) = map_of kvs ''0''"
| "index0 _ = None"

text \<open>\<^verbatim>\<open>v?.[0]\<close>.\<close>

fun opt_index0 :: "json option \<Rightarrow> json option" where
  "opt_index0 None = None"
| "opt_index0 (Some JNull) = None"
| "opt_index0 (Some v) = index0 v"

subsection \<open>Strings\<close>

text \<open>\<^verbatim>\<open>s.includes(pat)\<close>.\<close>

definition str_includes :: "string \<Rightarrow> string \<Rightarrow> bool" where
  "str_includes s pat = sublist pat s"

text \<open>The white space and line terminators that \<^verbatim>\<open>String.prototype.trim\<close> strips, among
  the code units below 256: TAB, LF, VT, FF, CR, SPACE and NBSP.\<close>

definition is_ws :: "char \<Rightarrow> bool" where
  "is_ws c = (of_char c \<in> {9, 10, 11, 12, 13, 32, 160 :: nat})"

definition trim :: "string \<Rightarrow> string" where
  "trim s = rev (dropWhile is_ws (rev (dropWhile is_ws s)))"

text \<open>Decimal rendering of a number in a template literal; \<open>digit_char\<close> is only applied
  to numbers below 10.\<close>

definition digit_char :: "nat \<Rightarrow> char" where
  "digit_char d = ''0123456789'' ! d"

fun show_nat :: "nat \<Rightarrow> string" where
  "show_nat n = (if n < 10 then [digit_char n] else show_nat (n div 10) @ [digit_char (n mod 10)])"

declare show_nat.simps [simp del]

subsection \<open>The network, the world and the log\<close>

datatype GeminiApiVersion = V1beta | V1

fun version_str :: "GeminiApiVersion \<Rightarrow> string" where
  "version_str V1beta = ''v1beta''"
| "version_str V1 = ''v1''"

text \<open>The \<^verbatim>\<open>RequestInit\<close> objects the code builds: a method, headers, and for a POST the
  object that \<^verbatim>\<open>JSON.stringify\<close> serialises into the body.\<close>

record RequestInit =
  init_method :: string
  init_headers :: "(string \<times> string) list"
  init_body :: "json option"

text \<open>What awaiting \<^verbatim>\<open>fetch\<close> and then \<^verbatim>\<open>resp.text()\<close> gives: a rejection (network
  failure, or the abort of the timeout), or a response with its status and body text. Both
  call sites treat a rejection of \<^verbatim>\<open>fetch\<close> and one of \<^verbatim>\<open>resp.text()\<close> alike.\<close>

datatype attempt = Rejected string | Response nat string

datatype event =
    Fetch string RequestInit nat
  | Sleep nat
  | Warn string

type_synonym 'w state = "'w \<times> event list"

type_synonym 'w fetch = "string \<Rightarrow> RequestInit \<Rightarrow> nat \<Rightarrow> 'w \<Rightarrow> attempt \<times> 'w"

definition emit :: "event \<Rightarrow> 'w state \<Rightarrow> 'w state" where
  "emit e st = (fst st, snd st @ [e])"

definition sleep :: "nat \<Rightarrow> 'w state \<Rightarrow> 'w state" where
  "sleep ms st = emit (Sleep ms) st"

definition console_warn :: "string \<Rightarrow> 'w state \<Rightarrow> 'w state" where
  "console_warn msg st = emit (Warn msg) st"

definition fetchWithTimeout ::
  "'w fetch \<Rightarrow> string \<Rightarrow> RequestInit \<Rightarrow> nat \<Rightarrow> 'w state \<Rightarrow> attempt \<times> 'w state" where
  "fetchWithTimeout fetch url init timeoutMs st =
     (case fetch url init timeoutMs (fst st) of
        (a, w') \<Rightarrow> (a, (w', snd st @ [Fetch url init timeoutMs])))"

text \<open>\<^verbatim>\<open>resp.ok\<close>.\<close>

definition resp_ok :: "nat \<Rightarrow> bool" where
  "resp_ok status = (200 \<le> status \<and> status \<le> 299)"

subsection \<open>The retrier\<close>

definition isRetryableStatus :: "nat \<Rightarrow> bool" where
  "isRetryableStatus status =
     (status = 429 \<or> status = 500 \<or> status = 502 \<or> status = 503 \<or> status = 504)"

text \<open>The loop of \<^verbatim>\<open>postJsonWithRetry\<close>, entered at index \<open>i\<close> with the current
  \<^verbatim>\<open>lastErr\<close>. The last branch is the \<^verbatim>\<open>throw lastErr ?? new Error('Unknown error')\<close>
  after the loop.\<close>

function retry_loop ::
  "'w fetch \<Rightarrow> string \<Rightarrow> RequestInit \<Rightarrow> nat \<Rightarrow> nat \<Rightarrow> nat \<Rightarrow> string option \<Rightarrow> 'w state
     \<Rightarrow> (string + nat \<times> string) \<times> 'w state" where
  "retry_loop fetch url init timeoutMs retries i lastErr st =
     (if i \<le> retries then
        (case fetchWithTimeout fetch url init timeoutMs st of
           (Response status raw, st1) \<Rightarrow>
             if resp_ok status then (Inr (status, raw), st1)
             else if isRetryableStatus status \<and> i < retries then
               retry_loop fetch url init timeoutMs retries (Suc i) lastErr
                 (sleep (800 * 2 ^ i)
                   (console_warn (''[WARN] Retryable status '' @ show_nat status @ ''. wait=''
                      @ show_nat (800 * 2 ^ i) @ ''ms'') st1))
             else (Inr (status, raw), st1)
         | (Rejected e, st1) \<Rightarrow>
             if i < retries then
               retry_loop fetch url init timeoutMs retries (Suc i) (Some e)
                 (sleep (800 * 2 ^ i)
                   (console_warn (''[WARN] Network/timeout error. retry wait=''
                      @ show_nat (800 * 2 ^ i) @ ''ms err='' @ e) st1))
             else (Inl e, st1))
      else (Inl (case lastErr of Some e \<Rightarrow> e | None \<Rightarrow> ''Unknown error''), st))"
  by pat_completeness auto
termination
  by (relation "measure (\<lambda>(fetch, url, init, timeoutMs, retries, i, lastErr, st). Suc retries - i)")
     auto

declare retry_loop.simps [simp del]

definition postJsonWithRetry ::
  "'w fetch \<Rightarrow> string \<Rightarrow> RequestInit \<Rightarrow> nat \<Rightarrow> nat \<Rightarrow> 'w state
     \<Rightarrow> (string + nat \<times> string) \<times> 'w state" where
  "postJsonWithRetry fetch url init timeoutMs retries st =
     retry_loop fetch url init timeoutMs retries 0 None st"

subsection \<open>Model descriptors\<close>

definition shortModelName :: "string \<Rightarrow> string" where
  "shortModelName fullName = (if prefix ''models/'' fullName then drop 7 fullName else fullName)"

text \<open>The name of a catalog entry when \<^verbatim>\<open>typeof m?.name === 'string'\<close>, else \<open>None\<close>.\<close>

definition string_name :: "json \<Rightarrow> string option" where
  "string_name m = (case opt_prop ''name'' (Some m) of Some (JStr n) \<Rightarrow> Some n | _ \<Rightarrow> None)"

text \<open>Called only on entries with a string name, which are objects.\<close>

definition modelSupportsGenerateContent :: "json \<Rightarrow> bool" where
  "modelSupportsGenerateContent m =
     (case get_prop ''supportedGenerationMethods'' m of
        Some (JArr methods) \<Rightarrow>
          if length methods = 0 then True else JStr ''generateContent'' \<in> set methods
      | _ \<Rightarrow> True)"

subsection \<open>Listing the catalog\<close>

type_synonym json_parse = "string \<Rightarrow> string + json"

definition list_url :: "GeminiApiVersion \<Rightarrow> string" where
  "list_url version =
     ''https://generativelanguage.googleapis.com/'' @ version_str version @ ''/models''"

definition list_init :: "string \<Rightarrow> RequestInit" where
  "list_init apiKey =
     \<lparr>init_method = ''GET'', init_headers = [(''x-goog-api-key'', apiKey)], init_body = None\<rparr>"

definition listModels ::
  "'w fetch \<Rightarrow> json_parse \<Rightarrow> GeminiApiVersion \<Rightarrow> string \<Rightarrow> 'w state
     \<Rightarrow> (string + json list) \<times> 'w state" where
  "listModels fetch JSON_parse version apiKey st =
     (case fetchWithTimeout fetch (list_url version) (list_init apiKey) 15000 st of
        (Rejected e, st1) \<Rightarrow> (Inl e, st1)
      | (Response status raw, st1) \<Rightarrow>
          if \<not> resp_ok status then
            (Inl (''ListModels failed ('' @ version_str version @ ''): '' @ show_nat status
                    @ '' '' @ raw), st1)
          else
            (case JSON_parse raw of
               Inl e \<Rightarrow> (Inl e, st1)
             | Inr data \<Rightarrow>
                 (Inr (case opt_prop ''models'' (Some data) of
                         Some (JArr models) \<Rightarrow> models
                       | _ \<Rightarrow> []), st1)))"

subsection \<open>Generating content\<close>

definition isGeminiNotFoundOrUnsupported :: "string \<Rightarrow> bool" where
  "isGeminiNotFoundOrUnsupported errMsg =
     (str_includes errMsg '': 404'' \<or> str_includes errMsg ''\"code\": 404''
      \<or> str_includes errMsg ''NOT_FOUND'' \<or> str_includes errMsg ''not supported'')"

definition generate_url :: "GeminiApiVersion \<Rightarrow> string \<Rightarrow> string" where
  "generate_url version model =
     ''https://generativelanguage.googleapis.com/'' @ version_str version @ ''/models/''
       @ model @ '':generateContent''"

definition generate_init :: "string \<Rightarrow> string \<Rightarrow> RequestInit" where
  "generate_init apiKey prompt =
     \<lparr>init_method = ''POST'',
      init_headers = [(''x-goog-api-key'', apiKey), (''Content-Type'', ''application/json'')],
      init_body = Some (JObj [(''contents'',
        JArr [JObj [(''role'', JStr ''user''),
                    (''parts'', JArr [JObj [(''text'', JStr prompt)]])]])])\<rparr>"

text \<open>\<^verbatim>\<open>data?.candidates?.[0]?.content?.parts?.[0]?.text\<close>.\<close>

definition response_text :: "json \<Rightarrow> json option" where
  "response_text data =
     opt_prop ''text'' (opt_index0 (opt_prop ''parts'' (opt_prop ''content''
       (opt_index0 (opt_prop ''candidates'' (Some data))))))"

definition failed_msg :: "GeminiApiVersion \<Rightarrow> string \<Rightarrow> nat \<Rightarrow> string \<Rightarrow> string" where
  "failed_msg version model status raw =
     ''Gemini generateContent failed ('' @ version_str version @ ''/'' @ model @ ''): ''
       @ show_nat status @ '' '' @ raw"

definition empty_msg :: "GeminiApiVersion \<Rightarrow> string \<Rightarrow> string \<Rightarrow> string" where
  "empty_msg version model raw =
     ''Gemini response is empty ('' @ version_str version @ ''/'' @ model @ ''). raw='' @ raw"

definition generateContent ::
  "'w fetch \<Rightarrow> json_parse \<Rightarrow> GeminiApiVersion \<Rightarrow> string \<Rightarrow> string \<Rightarrow> string \<Rightarrow> 'w state
     \<Rightarrow> (string + string) \<times> 'w state" where
  "generateContent fetch JSON_parse version model apiKey prompt st =
     (case postJsonWithRetry fetch (generate_url version model) (generate_init apiKey prompt)
             30000 3 st of
        (Inl e, st1) \<Rightarrow> (Inl e, st1)
      | (Inr (status, raw), st1) \<Rightarrow>
          if \<not> resp_ok status then (Inl (failed_msg version model status raw), st1)
          else
            (case JSON_parse raw of
               Inl e \<Rightarrow> (Inl e, st1)
             | Inr data \<Rightarrow>
                 (case response_text data of
                    Some (JStr txt) \<Rightarrow>
                      if trim txt = [] then (Inl (empty_msg version model raw), st1)
                      else (Inr txt, st1)
                  | _ \<Rightarrow> (Inl (empty_msg version model raw), st1))))"

subsection \<open>Selecting a version and a model\<close>

definition preferred :: "string list" where
  "preferred =
     [''gemini-2.5-flash'', ''gemini-2.0-flash'', ''gemini-2.0-flash-001'', ''gemini-2.0-flash-lite'']"

definition available_of :: "json list \<Rightarrow> string list" where
  "available_of models =
     filter (\<lambda>n. n \<noteq> [])
       (map (\<lambda>m. shortModelName (the (string_name m)))
         (filter (\<lambda>m. string_name m \<noteq> None) models))"

definition generateCapable_of :: "json list \<Rightarrow> string set" where
  "generateCapable_of models =
     set (map (\<lambda>m. shortModelName (the (string_name m)))
       (filter (\<lambda>m. string_name m \<noteq> None \<and> modelSupportsGenerateContent m) models))"

text \<open>The two \<^verbatim>\<open>for\<close> loops that fill \<^verbatim>\<open>candidates\<close>.\<close>

definition candidates_of :: "string list \<Rightarrow> string list" where
  "candidates_of available =
     fold (\<lambda>a candidates. if a \<notin> set candidates then candidates @ [a] else candidates)
       available
       (fold (\<lambda>p candidates. if p \<in> set available then candidates @ [p] else candidates)
          preferred [])"

record picked =
  picked_version :: GeminiApiVersion
  picked_model :: string
  picked_text :: string

text \<open>How the loop over the candidates of one version is left: by the \<^verbatim>\<open>return\<close>, by the
  \<^verbatim>\<open>throw e\<close>, or at its end, which moves on to the next version.\<close>

datatype flow = Return picked | Throw string | Fall_through

fun try_candidates ::
  "'w fetch \<Rightarrow> json_parse \<Rightarrow> GeminiApiVersion \<Rightarrow> string \<Rightarrow> string \<Rightarrow> string set
     \<Rightarrow> string list \<Rightarrow> 'w state \<Rightarrow> flow \<times> 'w state" where
  "try_candidates fetch JSON_parse version apiKey prompt generateCapable [] st =
     (Fall_through, st)"
| "try_candidates fetch JSON_parse version apiKey prompt generateCapable (model # rest) st =
     (if generateCapable \<noteq> {} \<and> model \<notin> generateCapable then
        try_candidates fetch JSON_parse version apiKey prompt generateCapable rest st
      else
        (case generateContent fetch JSON_parse version model apiKey prompt st of
           (Inr txt, st1) \<Rightarrow>
             (Return \<lparr>picked_version = version, picked_model = model, picked_text = txt\<rparr>, st1)
         | (Inl msg, st1) \<Rightarrow>
             if isGeminiNotFoundOrUnsupported msg then
               try_candidates fetch JSON_parse version apiKey prompt generateCapable rest
                 (console_warn (''[WARN] generateContent failed: '' @ msg) st1)
             else (Throw msg, console_warn (''[WARN] generateContent failed: '' @ msg) st1)))"

text \<open>The loop over the versions, and the \<^verbatim>\<open>throw\<close> after it.\<close>

fun try_versions ::
  "'w fetch \<Rightarrow> json_parse \<Rightarrow> string \<Rightarrow> string \<Rightarrow> GeminiApiVersion list \<Rightarrow> 'w state
     \<Rightarrow> (string + picked) \<times> 'w state" where
  "try_versions fetch JSON_parse apiKey prompt [] st =
     (Inl ''No working Gemini model found (checked v1beta/v1).'', st)"
| "try_versions fetch JSON_parse apiKey prompt (version # rest) st =
     (case listModels fetch JSON_parse version apiKey st of
        (Inl e, st1) \<Rightarrow>
          try_versions fetch JSON_parse apiKey prompt rest
            (console_warn (''[WARN] listModels failed ('' @ version_str version @ ''): '' @ e) st1)
      | (Inr models, st1) \<Rightarrow>
          (case try_candidates fetch JSON_parse version apiKey prompt (generateCapable_of models)
                  (candidates_of (available_of models)) st1 of
             (Return r, st2) \<Rightarrow> (Inr r, st2)
           | (Throw e, st2) \<Rightarrow> (Inl e, st2)
           | (Fall_through, st2) \<Rightarrow> try_versions fetch JSON_parse apiKey prompt rest st2))"

definition generateWithAutoPick ::
  "'w fetch \<Rightarrow> json_parse \<Rightarrow> string \<Rightarrow> string \<Rightarrow> 'w state \<Rightarrow> (string + picked) \<times> 'w state" where
  "generateWithAutoPick fetch JSON_parse apiKey prompt st =
     try_versions fetch JSON_parse apiKey prompt [V1beta, V1] st"

section \<open>Notions used in the statements\<close>

subsection \<open>Attempts of one call of the retrier\<close>

text \<open>An attempt the retrier would repeat, budget permitting: a rejected request, or a
  response with one of the retryable statuses. What the retrier returns for the attempt it
  stops at: a rejection is rethrown, a response is returned. The line it logs before a
  repetition.\<close>

definition retryable :: "attempt \<Rightarrow> bool" where
  "retryable a = (case a of Rejected _ \<Rightarrow> True | Response status _ \<Rightarrow> isRetryableStatus status)"

definition outcome_of :: "attempt \<Rightarrow> string + nat \<times> string" where
  "outcome_of a = (case a of Rejected e \<Rightarrow> Inl e | Response status raw \<Rightarrow> Inr (status, raw))"

definition retry_warning :: "attempt \<Rightarrow> nat \<Rightarrow> string" where
  "retry_warning a i =
     (case a of
        Response status _ \<Rightarrow>
          ''[WARN] Retryable status '' @ show_nat status @ ''. wait='' @ show_nat (800 * 2 ^ i) @ ''ms''
      | Rejected e \<Rightarrow>
          ''[WARN] Network/timeout error. retry wait='' @ show_nat (800 * 2 ^ i) @ ''ms err='' @ e)"

text \<open>The world before the \<open>n\<close>-th of the successive attempts of one request (counted from 0),
  and the outcome of that attempt.\<close>

definition nth_world :: "'w fetch \<Rightarrow> string \<Rightarrow> RequestInit \<Rightarrow> nat \<Rightarrow> 'w \<Rightarrow> nat \<Rightarrow> 'w" where
  "nth_world fetch url init timeoutMs w n = ((\<lambda>w. snd (fetch url init timeoutMs w)) ^^ n) w"

definition nth_outcome :: "'w fetch \<Rightarrow> string \<Rightarrow> RequestInit \<Rightarrow> nat \<Rightarrow> 'w \<Rightarrow> nat \<Rightarrow> attempt" where
  "nth_outcome fetch url init timeoutMs w n =
     fst (fetch url init timeoutMs (nth_world fetch url init timeoutMs w n))"

text \<open>The attempt at which a call with a given budget stops: the first one that is not
  retryable, or the last one the budget allows. The events of a call that stops at attempt
  \<open>k\<close>: the first request, and before each further attempt \<open>i\<close> a warning and a sleep.\<close>

definition stops_at :: "'w fetch \<Rightarrow> string \<Rightarrow> RequestInit \<Rightarrow> nat \<Rightarrow> nat \<Rightarrow> 'w \<Rightarrow> nat \<Rightarrow> bool" where
  "stops_at fetch url init timeoutMs retries w k =
     (k \<le> retries \<and> (\<forall>j<k. retryable (nth_outcome fetch url init timeoutMs w j)) \<and>
      (k = retries \<or> \<not> retryable (nth_outcome fetch url init timeoutMs w k)))"

definition retry_events :: "'w fetch \<Rightarrow> string \<Rightarrow> RequestInit \<Rightarrow> nat \<Rightarrow> 'w \<Rightarrow> nat \<Rightarrow> event list" where
  "retry_events fetch url init timeoutMs w k =
     Fetch url init timeoutMs #
       concat (map (\<lambda>i. [Warn (retry_warning (nth_outcome fetch url init timeoutMs w (i - 1)) (i - 1)),
                          Sleep (800 * 2 ^ (i - 1)), Fetch url init timeoutMs]) [1..<Suc k])"

definition is_Fetch :: "event \<Rightarrow> bool" where
  "is_Fetch e = (case e of Fetch _ _ _ \<Rightarrow> True | _ \<Rightarrow> False)"

subsection \<open>Results of the two calls\<close>

text \<open>What \<^verbatim>\<open>generateContent\<close> makes of the result of the retrier, and what
  \<^verbatim>\<open>listModels\<close> makes of the outcome of its request: the parts of the two functions
  that follow the network call.\<close>

definition generated ::
  "json_parse \<Rightarrow> GeminiApiVersion \<Rightarrow> string \<Rightarrow> (string + nat \<times> string) \<Rightarrow> string + string" where
  "generated JSON_parse version model r =
     (case r of
        Inl e \<Rightarrow> Inl e
      | Inr (status, raw) \<Rightarrow>
          if \<not> resp_ok status then Inl (failed_msg version model status raw)
          else
            (case JSON_parse raw of
               Inl e \<Rightarrow> Inl e
             | Inr data \<Rightarrow>
                 (case response_text data of
                    Some (JStr txt) \<Rightarrow>
                      if trim txt = [] then Inl (empty_msg version model raw) else Inr txt
                  | _ \<Rightarrow> Inl (empty_msg version model raw))))"

definition listed :: "json_parse \<Rightarrow> GeminiApiVersion \<Rightarrow> attempt \<Rightarrow> string + json list" where
  "listed JSON_parse version a =
     (case a of
        Rejected e \<Rightarrow> Inl e
      | Response status raw \<Rightarrow>
          if \<not> resp_ok status then
            Inl (''ListModels failed ('' @ version_str version @ ''): '' @ show_nat status @ '' '' @ raw)
          else
            (case JSON_parse raw of
               Inl e \<Rightarrow> Inl e
             | Inr data \<Rightarrow>
                 Inr (case opt_prop ''models'' (Some data) of Some (JArr models) \<Rightarrow> models | _ \<Rightarrow> [])))"

text \<open>The generated-text field of a parsed answer is missing, not a string, empty, or made of
  white space only.\<close>

definition no_text :: "json \<Rightarrow> bool" where
  "no_text data = (case response_text data of Some (JStr t) \<Rightarrow> list_all is_ws t | _ \<Rightarrow> True)"

text \<open>The substrings that \<^verbatim>\<open>isGeminiNotFoundOrUnsupported\<close> looks for.\<close>

definition markers :: "string list" where
  "markers = ['': 404'', ''\"code\": 404'', ''NOT_FOUND'', ''not supported'']"

subsection \<open>Candidates and their order\<close>

text \<open>The capability filter at the head of the loop over the candidates, and the candidates
  that it lets through.\<close>

definition skipped :: "string set \<Rightarrow> string \<Rightarrow> bool" where
  "skipped generateCapable model = (generateCapable \<noteq> {} \<and> model \<notin> generateCapable)"

definition attemptable :: "string set \<Rightarrow> string list \<Rightarrow> string list" where
  "attemptable gc cs = filter (\<lambda>m. \<not> skipped gc m) cs"

text \<open>The elements of a list in the order of their first occurrence.\<close>

fun first_occurrences :: "'a list \<Rightarrow> 'a list" where
  "first_occurrences [] = []"
| "first_occurrences (x # xs) = x # filter (\<lambda>y. y \<noteq> x) (first_occurrences xs)"

text \<open>The URLs requested by a run, in order, and the same with the repetitions of the retrier
  collapsed.\<close>

definition requested_urls :: "event list \<Rightarrow> string list" where
  "requested_urls evs = concat (map (\<lambda>e. case e of Fetch url _ _ \<Rightarrow> [url] | _ \<Rightarrow> []) evs)"

definition attempt_order :: "event list \<Rightarrow> string list" where
  "attempt_order evs = remdups_adj (requested_urls evs)"

subsection \<open>What two runs are compared on\<close>

text \<open>What a caller can tell of a result when the generated text is left aside: the version and
  the model selected, or the error; of an attempt: that it succeeded, or its error; of the way
  the loop over the candidates is left: the same, or that it fell through.\<close>

definition selection :: "string + picked \<Rightarrow> string + GeminiApiVersion \<times> string" where
  "selection r = (case r of Inl e \<Rightarrow> Inl e | Inr p \<Rightarrow> Inr (picked_version p, picked_model p))"

definition error_of :: "string + string \<Rightarrow> string option" where
  "error_of r = (case r of Inl e \<Rightarrow> Some e | Inr answer \<Rightarrow> None)"

definition flow_selection :: "flow \<Rightarrow> (string + GeminiApiVersion \<times> string) option" where
  "flow_selection r =
     (case r of Return p \<Rightarrow> Some (Inr (picked_version p, picked_model p))
              | Throw e \<Rightarrow> Some (Inl e) | Fall_through \<Rightarrow> None)"

section \<open>Servers, catalogs and bodies for concrete runs\<close>

text \<open>A world whose state counts the requests made so far, and in which the \<open>n\<close>-th request
  gets the \<open>n\<close>-th outcome of a script; and a world, of any state, in which every request to
  a URL gets the reply a table gives for it, and a rejection when the table has none.\<close>

definition scripted :: "attempt list \<Rightarrow> nat fetch" where
  "scripted outs url init timeoutMs n =
     (if n < length outs then outs ! n else Rejected ''fetch failed'', Suc n)"

definition table_fetch :: "(string \<times> attempt) list \<Rightarrow> 'w fetch" where
  "table_fetch tbl url init timeoutMs w =
     (case map_of tbl url of Some a \<Rightarrow> a | None \<Rightarrow> Rejected ''fetch failed'', w)"

text \<open>A catalog: a descriptor without a capability list, one that only embeds, a preferred one
  that generates, and one whose capability list is empty.\<close>

definition demo_models :: "json list" where
  "demo_models =
     [JObj [(''name'', JStr ''models/gemini-pro-vision'')],
      JObj [(''name'', JStr ''models/embedding-001''),
            (''supportedGenerationMethods'', JArr [JStr ''embedContent''])],
      JObj [(''name'', JStr ''models/gemini-2.0-flash-lite''),
            (''supportedGenerationMethods'', JArr [JStr ''generateContent'', JStr ''countTokens''])],
      JObj [(''name'', JStr ''models/gemini-exp''), (''supportedGenerationMethods'', JArr [])]]"

text \<open>Three bodies, and what \<^verbatim>\<open>JSON.parse\<close> returns for them: the catalog above, an
  answer with the text \<open>Hello\<close>, and an answer without candidates. Any other body is taken to
  be malformed; the runs below parse no other body.\<close>

definition catalog_body :: string where
  "catalog_body = ''{\"models\":[{\"name\":\"models/gemini-pro-vision\"},{\"name\":\"models/embedding-001\",\"supportedGenerationMethods\":[\"embedContent\"]},{\"name\":\"models/gemini-2.0-flash-lite\",\"supportedGenerationMethods\":[\"generateContent\",\"countTokens\"]},{\"name\":\"models/gemini-exp\",\"supportedGenerationMethods\":[]}]}''"

definition answer_body :: string where
  "answer_body = ''{\"candidates\":[{\"content\":{\"parts\":[{\"text\":\"Hello\"}]}}]}''"

definition blank_body :: string where
  "blank_body = ''{\"candidates\":[]}''"

definition demo_parse :: json_parse where
  "demo_parse raw =
     (if raw = catalog_body then Inr (JObj [(''models'', JArr demo_models)])
      else if raw = answer_body then
        Inr (JObj [(''candidates'',
          JArr [JObj [(''content'', JObj [(''parts'', JArr [JObj [(''text'', JStr ''Hello'')]])])]])])
      else if raw = blank_body then Inr (JObj [(''candidates'', JArr [])])
      else Inl ''Unexpected token'')"

text \<open>A server that answers 503 to everything.\<close>

definition busy_table :: "(string \<times> attempt) list" where
  "busy_table = [(generate_url V1 ''m'', Response 503 ''busy''), (list_url V1, Response 503 ''busy'')]"

text \<open>A server that rejects the listing of the primary version and serves the secondary one.\<close>

definition secondary_only :: "(string \<times> attempt) list" where
  "secondary_only =
     [(list_url V1, Response 200 catalog_body),
      (generate_url V1 ''gemini-2.0-flash-lite'', Response 200 answer_body)]"

text \<open>A server that refuses the key on every listing.\<close>

definition denied_table :: "(string \<times> attempt) list" where
  "denied_table =
     [(list_url V1beta, Response 401 ''denied''), (list_url V1, Response 401 ''denied'')]"

text \<open>A server on which the preferred model is gone (404) and the next one refuses the key.\<close>

definition gone_then_denied :: "(string \<times> attempt) list" where
  "gone_then_denied =
     [(list_url V1beta, Response 200 catalog_body),
      (generate_url V1beta ''gemini-2.0-flash-lite'', Response 404 ''gone''),
      (generate_url V1beta ''gemini-pro-vision'', Response 401 ''denied''),
      (generate_url V1beta ''gemini-exp'', Response 200 answer_body)]"

text \<open>A server that answers 403 for the preferred model, with a body that mentions a 404, and
  serves the next model.\<close>

definition forbidden_body :: string where
  "forbidden_body = ''{\"error\":{\"code\":403,\"message\":\"Billing lookup failed: 404\",\"status\":\"PERMISSION_DENIED\"}}''"

definition forbidden_table :: "(string \<times> attempt) list" where
  "forbidden_table =
     [(list_url V1beta, Response 200 catalog_body),
      (generate_url V1beta ''gemini-2.0-flash-lite'', Response 403 forbidden_body),
      (generate_url V1beta ''gemini-pro-vision'', Response 200 answer_body)]"

text \<open>A server whose preferred model answers 200 without any candidate, while the next model
  would answer properly.\<close>

definition blank_table :: "(string \<times> attempt) list" where
  "blank_table =
     [(list_url V1beta, Response 200 catalog_body),
      (generate_url V1beta ''gemini-2.0-flash-lite'', Response 200 blank_body),
      (generate_url V1beta ''gemini-pro-vision'', Response 200 answer_body)]"

section \<open>The retrier\<close>

lemma retryable_not_ok: "isRetryableStatus s \<Longrightarrow> \<not> resp_ok s"
  by (auto simp: isRetryableStatus_def resp_ok_def)

lemma nth_world_0 [simp]: "nth_world fetch url init t w 0 = w"
  by (simp add: nth_world_def)

lemma nth_world_Suc: "nth_world fetch url init t w (Suc n) = nth_world fetch url init t (snd (fetch url init t w)) n"
  unfolding nth_world_def by (induction n) simp_all

lemma nth_outcome_0: "nth_outcome fetch url init t w 0 = fst (fetch url init t w)"
  by (simp add: nth_outcome_def)

lemma nth_outcome_Suc: "nth_outcome fetch url init t w (Suc n) = nth_outcome fetch url init t (snd (fetch url init t w)) n"
  by (simp add: nth_outcome_def nth_world_Suc)

lemma retry_loop_stop:
  assumes "i \<le> retries" "fetch url init t w = (a, w')" "i = retries \<or> \<not> retryable a"
  shows "retry_loop fetch url init t retries i lastErr (w, log) = (outcome_of a, (w', log @ [Fetch url init t]))"
  using assms
  by (subst retry_loop.simps)
     (auto simp: fetchWithTimeout_def outcome_of_def retryable_def split: attempt.splits)

lemma retry_loop_again:
  assumes "i < retries" "fetch url init t w = (a, w')" "retryable a"
  shows "\<exists>lastErr'. retry_loop fetch url init t retries i lastErr (w, log) =
     retry_loop fetch url init t retries (Suc i) lastErr'
       (w', log @ [Fetch url init t, Warn (retry_warning a i), Sleep (800 * 2 ^ i)])"
  using assms
  by (subst retry_loop.simps)
     (auto simp: fetchWithTimeout_def retryable_def retry_warning_def sleep_def console_warn_def emit_def
        retryable_not_ok split: attempt.splits)

lemma retry_loop_run:
  assumes "i + d \<le> retries"
    and "\<forall>j<d. retryable (nth_outcome fetch url init t w j)"
    and "i + d = retries \<or> \<not> retryable (nth_outcome fetch url init t w d)"
  shows "retry_loop fetch url init t retries i lastErr (w, log) =
     (outcome_of (nth_outcome fetch url init t w d),
      (nth_world fetch url init t w (Suc d),
       log @ Fetch url init t #
         concat (map (\<lambda>j. [Warn (retry_warning (nth_outcome fetch url init t w j) (i + j)),
                           Sleep (800 * 2 ^ (i + j)), Fetch url init t]) [0..<d])))"
  using assms
proof (induction d arbitrary: i w log lastErr)
  case 0
  obtain a w' where f: "fetch url init t w = (a, w')" by (cases "fetch url init t w")
  with 0 show ?case
    using retry_loop_stop [of i retries fetch url init t w a w' lastErr log]
    by (simp add: nth_outcome_0 nth_world_Suc)
next
  case (Suc d)
  obtain a w' where f: "fetch url init t w = (a, w')" by (cases "fetch url init t w")
  from Suc.prems(2) have r0: "retryable a" using f by (auto simp: nth_outcome_0 dest: spec [of _ 0])
  from Suc.prems(1) have lt: "i < retries" by simp
  obtain le' where step: "retry_loop fetch url init t retries i lastErr (w, log) =
     retry_loop fetch url init t retries (Suc i) le'
       (w', log @ [Fetch url init t, Warn (retry_warning a i), Sleep (800 * 2 ^ i)])"
    using retry_loop_again [of i retries fetch url init t w a w' lastErr log] lt f r0 by blast
  have p1: "Suc i + d \<le> retries" using Suc.prems(1) by simp
  have p2: "\<forall>j<d. retryable (nth_outcome fetch url init t w' j)"
    using Suc.prems(2) f by (auto simp: nth_outcome_Suc dest: spec [of _ "Suc _"])
  have p3: "Suc i + d = retries \<or> \<not> retryable (nth_outcome fetch url init t w' d)"
    using Suc.prems(3) f by (simp add: nth_outcome_Suc)
  have shift: "map (\<lambda>j. [Warn (retry_warning (nth_outcome fetch url init t w j) (i + j)),
                           Sleep (800 * 2 ^ (i + j)), Fetch url init t]) [0..<Suc d]
      = [Warn (retry_warning a i), Sleep (800 * 2 ^ i), Fetch url init t] #
        map (\<lambda>j. [Warn (retry_warning (nth_outcome fetch url init t w' j) (Suc i + j)),
                           Sleep (800 * 2 ^ (Suc i + j)), Fetch url init t]) [0..<d]"
    using f by (simp only: upt_conv_Cons [of 0 "Suc d"] map_Suc_upt [symmetric])
               (simp add: nth_outcome_0 nth_outcome_Suc)
  show ?case
    unfolding step Suc.IH [OF p1 p2 p3] shift
    using f by (simp add: nth_outcome_Suc nth_world_Suc [of _ _ _ _ w])
qed

lemma scripted_world: "nth_world (scripted outs) url init t w n = w + n"
  by (induction n arbitrary: w) (simp_all add: nth_world_Suc scripted_def)

lemma scripted_outcome:
  "nth_outcome (scripted outs) url init t w n =
     (if w + n < length outs then outs ! (w + n) else Rejected ''fetch failed'')"
  by (simp add: nth_outcome_def scripted_world) (simp add: scripted_def)

lemma stops_at_exists: "\<exists>k. stops_at fetch url init t retries w k"
proof -
  let ?P = "\<lambda>k. k = retries \<or> \<not> retryable (nth_outcome fetch url init t w k)"
  define k where "k = (LEAST k. ?P k)"
  have P: "?P k" unfolding k_def by (rule LeastI [of ?P retries]) simp
  have le: "k \<le> retries" unfolding k_def by (rule Least_le) simp
  have "\<forall>j<k. retryable (nth_outcome fetch url init t w j)"
    unfolding k_def using not_less_Least [of _ ?P] by blast
  with P le show ?thesis unfolding stops_at_def by blast
qed

lemma stops_at_unique:
  "stops_at fetch url init t retries w k \<Longrightarrow> stops_at fetch url init t retries w k' \<Longrightarrow> k = k'"
  unfolding stops_at_def by (metis linorder_neqE_nat not_less)

lemma postJsonWithRetry_stops_at:
  assumes "stops_at fetch url init t retries w k"
  shows "postJsonWithRetry fetch url init t retries (w, log) =
     (outcome_of (nth_outcome fetch url init t w k),
      (nth_world fetch url init t w (Suc k), log @ retry_events fetch url init t w k))"
proof -
  have "[1..<Suc k] = map Suc [0..<k]"
    by (simp only: map_Suc_upt One_nat_def)
  then have reindex: "retry_events fetch url init t w k
     = Fetch url init t # concat (map (\<lambda>j. [Warn (retry_warning (nth_outcome fetch url init t w j) (0 + j)),
                           Sleep (800 * 2 ^ (0 + j)), Fetch url init t]) [0..<k])"
    by (simp add: comp_def retry_events_def)
  show ?thesis
    unfolding postJsonWithRetry_def reindex
    using assms by (intro retry_loop_run) (simp_all add: stops_at_def)
qed

lemma generateContent_eq:
  "generateContent fetch JSON_parse version model apiKey prompt st =
     (generated JSON_parse version model
        (fst (postJsonWithRetry fetch (generate_url version model) (generate_init apiKey prompt) 30000 3 st)),
      snd (postJsonWithRetry fetch (generate_url version model) (generate_init apiKey prompt) 30000 3 st))"
  by (auto simp: generateContent_def generated_def split: prod.splits sum.splits option.splits json.splits)

lemma generateContent_stops_at:
  assumes "stops_at fetch (generate_url version model) (generate_init apiKey prompt) 30000 3 w k"
  shows "generateContent fetch JSON_parse version model apiKey prompt (w, log) =
     (generated JSON_parse version model
        (outcome_of (nth_outcome fetch (generate_url version model) (generate_init apiKey prompt) 30000 w k)),
      (nth_world fetch (generate_url version model) (generate_init apiKey prompt) 30000 w (Suc k),
       log @ retry_events fetch (generate_url version model) (generate_init apiKey prompt) 30000 w k))"
  by (simp add: generateContent_eq postJsonWithRetry_stops_at [OF assms])

lemma listModels_state:
  "snd (listModels fetch JSON_parse version apiKey (w, log)) =
     (snd (fetch (list_url version) (list_init apiKey) 15000 w),
      log @ [Fetch (list_url version) (list_init apiKey) 15000])"
  by (auto simp: listModels_def fetchWithTimeout_def split: prod.splits attempt.splits sum.splits)

text \<open>
  Claim C3. Whatever the network does: when the first \<open>k \<le> retries\<close> attempts of a call are
  retryable (status 429, 500, 502, 503 or 504, or a rejected request) and attempt \<open>k\<close> either is
  not retryable or is the last one the budget allows, \<^verbatim>\<open>postJsonWithRetry\<close> issues exactly
  the attempts \<open>0..k\<close>, returns the outcome of attempt \<open>k\<close> as it is (a response is returned, a
  rejection is rethrown), and before each attempt \<open>i \<ge> 1\<close> it warns and sleeps exactly
  \<open>800 * 2 ^ (i - 1)\<close> milliseconds.
\<close>

theorem retrier_first_terminal_outcome:
  assumes "k \<le> retries"
    and "\<forall>j<k. retryable (nth_outcome fetch url init t w j)"
    and "k = retries \<or> \<not> retryable (nth_outcome fetch url init t w k)"
  shows "postJsonWithRetry fetch url init t retries (w, log) =
     (outcome_of (nth_outcome fetch url init t w k),
      (nth_world fetch url init t w (Suc k),
       log @ Fetch url init t #
         concat (map (\<lambda>i. [Warn (retry_warning (nth_outcome fetch url init t w (i - 1)) (i - 1)),
                           Sleep (800 * 2 ^ (i - 1)), Fetch url init t]) [1..<Suc k])))"
proof -
  have "[1..<Suc k] = map Suc [0..<k]"
    by (simp only: map_Suc_upt One_nat_def)
  then have reindex: "map (\<lambda>i. [Warn (retry_warning (nth_outcome fetch url init t w (i - 1)) (i - 1)),
                           Sleep (800 * 2 ^ (i - 1)), Fetch url init t]) [1..<Suc k]
     = map (\<lambda>j. [Warn (retry_warning (nth_outcome fetch url init t w j) (0 + j)),
                           Sleep (800 * 2 ^ (0 + j)), Fetch url init t]) [0..<k]"
    by (simp add: comp_def)
  show ?thesis
    unfolding postJsonWithRetry_def reindex
    using assms by (intro retry_loop_run) simp_all
qed


text \<open>A call with a budget of 3 that meets a 503, a rejection and then a 400: it sleeps 800 and
  1600 milliseconds and returns the 400 without asking a fourth time.\<close>

theorem retrier_first_terminal_outcome_witness:
  "postJsonWithRetry (scripted [Response 503 ''busy'', Rejected ''timeout'', Response 400 ''bad'', Response 200 ''ok''])
      ''u'' (list_init ''key'') 30000 3 (0, []) =
     (Inr (400, ''bad''),
      (3, [Fetch ''u'' (list_init ''key'') 30000,
           Warn ''[WARN] Retryable status 503. wait=800ms'', Sleep 800,
           Fetch ''u'' (list_init ''key'') 30000,
           Warn ''[WARN] Network/timeout error. retry wait=1600ms err=timeout'', Sleep 1600,
           Fetch ''u'' (list_init ''key'') 30000]))"
proof -
  let ?outs = "[Response 503 ''busy'', Rejected ''timeout'', Response 400 ''bad'', Response 200 ''ok'']"
  have h2: "\<forall>j<2. retryable (nth_outcome (scripted ?outs) ''u'' (list_init ''key'') 30000 0 j)"
    by (simp add: scripted_outcome retryable_def isRetryableStatus_def less_Suc_eq numeral_2_eq_2)
  have h3: "2 = (3::nat) \<or> \<not> retryable (nth_outcome (scripted ?outs) ''u'' (list_init ''key'') 30000 0 2)"
    by (simp add: scripted_outcome retryable_def isRetryableStatus_def)
  have upt: "[Suc 0..<3] = [Suc 0, 2]" by code_simp
  show ?thesis
    using retrier_first_terminal_outcome [of 2 3 "scripted ?outs" "''u''" "list_init ''key''" 30000 0 "[]", OF _ h2 h3]
    by (simp add: upt scripted_outcome scripted_world outcome_of_def retry_warning_def
          show_nat.simps digit_char_def)
qed

section \<open>The error messages and the mismatch markers\<close>

lemma sublist_sep:
  assumes "c \<notin> set p"
  shows "sublist p (xs @ c # ys) \<longleftrightarrow> sublist p xs \<or> sublist p ys"
proof
  assume "sublist p (xs @ c # ys)"
  then obtain ps ss where eq: "xs @ c # ys = ps @ p @ ss" by (auto simp: sublist_def)
  then consider us where "xs = ps @ us" "us @ c # ys = p @ ss"
    | us where "xs @ us = ps" "c # ys = us @ p @ ss"
    by (auto simp: append_eq_append_conv2)
  then show "sublist p xs \<or> sublist p ys"
  proof cases
    case 1
    from 1(2) consider vs where "us = p @ vs" | vs where "us @ vs = p" "c # ys = vs @ ss"
      by (auto simp: append_eq_append_conv2)
    then show ?thesis
    proof cases
      case 1
      then show ?thesis using \<open>xs = ps @ us\<close> by (auto simp: sublist_def)
    next
      case 2
      then have "vs = []" using assms by (cases vs) auto
      then have "xs = ps @ p @ []" using 2 \<open>xs = ps @ us\<close> by simp
      then have "sublist p xs" unfolding sublist_def by blast
      then show ?thesis ..
    qed
  next
    case 2
    show ?thesis
    proof (cases us)
      case Nil
      then have "p = []" using 2 assms by (cases p) auto
      then show ?thesis by simp
    next
      case (Cons u us')
      then have "ys = us' @ p @ ss" using 2 by simp
      then show ?thesis by (auto simp: sublist_def)
    qed
  qed
next
  assume "sublist p xs \<or> sublist p ys"
  then show "sublist p (xs @ c # ys)"
  proof
    assume "sublist p xs"
    then obtain ps ss where "xs = ps @ p @ ss" by (auto simp: sublist_def)
    then have "xs @ c # ys = ps @ p @ (ss @ c # ys)" by simp
    then show ?thesis unfolding sublist_def by blast
  next
    assume "sublist p ys"
    then obtain ps ss where "ys = ps @ p @ ss" by (auto simp: sublist_def)
    then have "xs @ c # ys = (xs @ c # ps) @ p @ ss" by simp
    then show ?thesis unfolding sublist_def by blast
  qed
qed

lemma sublist_skip:
  assumes "p \<noteq> []" "hd p \<notin> set xs"
  shows "sublist p (xs @ ys) \<longleftrightarrow> sublist p ys"
  using assms
proof (induction xs)
  case Nil then show ?case by simp
next
  case (Cons x xs)
  then show ?case
    by (cases p) (auto simp: sublist_Cons_right)
qed

lemma show_nat_digits: "set (show_nat n) \<subseteq> set ''0123456789''"
proof (induction n rule: show_nat.induct)
  case (1 n)
  have d: "\<And>k. k < 10 \<Longrightarrow> digit_char k \<in> set ''0123456789''"
    unfolding digit_char_def by (rule nth_mem) simp
  show ?case
  proof (cases "n < 10")
    case True
    then show ?thesis using d [of n] by (subst show_nat.simps) simp
  next
    case False
    then show ?thesis using 1 d [of "n mod 10"] by (subst show_nat.simps) simp
  qed
qed

lemma isGemini_markers: "isGeminiNotFoundOrUnsupported s \<longleftrightarrow> (\<exists>p \<in> set markers. sublist p s)"
  by (simp add: isGeminiNotFoundOrUnsupported_def markers_def str_includes_def)

lemma failed_msg_split:
  "failed_msg v model s raw =
     (''Gemini generateContent failed ('' @ version_str v) @ CHR ''/'' # model @ CHR '')'' #
       ('': '' @ show_nat s @ '' '' @ raw)"
  by (simp add: failed_msg_def)

lemma empty_msg_split:
  "empty_msg v model raw =
     (''Gemini response is empty ('' @ version_str v) @ CHR ''/'' # model @ CHR '')'' #
       (''. raw='' @ raw)"
  by (simp add: empty_msg_def)

lemma no_marker_in_failed_head:
  "p \<in> set markers \<Longrightarrow> \<not> sublist p (''Gemini generateContent failed ('' @ version_str v)"
  by (cases v) (auto simp: markers_def sublist_Cons_right)

lemma no_marker_in_empty_head:
  "p \<in> set markers \<Longrightarrow> \<not> sublist p (''Gemini response is empty ('' @ version_str v)"
  by (cases v) (auto simp: markers_def sublist_Cons_right)

lemma sublist_two_seps:
  "c \<notin> set p \<Longrightarrow> d \<notin> set p \<Longrightarrow>
     sublist p (h @ c # m @ d # t) \<longleftrightarrow> sublist p h \<or> sublist p m \<or> sublist p t"
  by (simp add: sublist_sep)

lemma marker_seps: "p \<in> set markers \<Longrightarrow> CHR ''/'' \<notin> set p \<and> CHR '')'' \<notin> set p \<and> p \<noteq> []"
  by (auto simp: markers_def)

lemma marker_in_empty_msg:
  assumes "p \<in> set markers"
  shows "sublist p (empty_msg v model raw) \<longleftrightarrow> sublist p model \<or> sublist p raw"
proof -
  have hd: "hd p \<notin> set ''. raw=''" using assms by (auto simp: markers_def)
  have tail: "sublist p (''. raw='' @ raw) \<longleftrightarrow> sublist p raw"
    using marker_seps [OF assms] hd by (intro sublist_skip) auto
  have sep: "sublist p (empty_msg v model raw) \<longleftrightarrow>
      sublist p (''Gemini response is empty ('' @ version_str v) \<or> sublist p model \<or>
      sublist p (''. raw='' @ raw)"
    unfolding empty_msg_split using marker_seps [OF assms] by (intro sublist_two_seps) auto
  show ?thesis
    using sep tail no_marker_in_empty_head [OF assms, of v] by blast
qed

lemma isGemini_empty_msg:
  "isGeminiNotFoundOrUnsupported (empty_msg v model raw) \<longleftrightarrow>
     isGeminiNotFoundOrUnsupported model \<or> isGeminiNotFoundOrUnsupported raw"
  unfolding isGemini_markers using marker_in_empty_msg by blast

lemma prefix_404_digits:
  assumes "set ds \<subseteq> set ''0123456789''"
  shows "prefix ''404'' (ds @ CHR '' '' # raw) \<longleftrightarrow> prefix ''404'' ds"
proof
  assume "prefix ''404'' (ds @ CHR '' '' # raw)"
  then consider "prefix ''404'' ds" | us where "''404'' = ds @ us" "prefix us (CHR '' '' # raw)"
    by (auto simp: prefix_append)
  then show "prefix ''404'' ds"
  proof cases
    case 1 then show ?thesis .
  next
    case 2
    then show ?thesis
      by (cases us) (auto simp: Cons_eq_append_conv prefix_Cons)
  qed
next
  assume "prefix ''404'' ds"
  then show "prefix ''404'' (ds @ CHR '' '' # raw)" by (rule prefix_prefix)
qed

lemma colon_404_in_tail:
  "sublist '': 404'' ('': '' @ show_nat s @ '' '' @ raw) \<longleftrightarrow>
     prefix ''404'' (show_nat s) \<or> sublist '': 404'' raw"
proof -
  have a: "prefix '': 404'' ('': '' @ show_nat s @ '' '' @ raw) \<longleftrightarrow> prefix ''404'' (show_nat s)"
    using prefix_404_digits [OF show_nat_digits, of s raw] by simp
  have "hd '': 404'' \<notin> set ('' '' @ show_nat s @ '' '')"
    using show_nat_digits [of s] by auto
  then have b: "sublist '': 404'' (('' '' @ show_nat s @ '' '') @ raw) \<longleftrightarrow> sublist '': 404'' raw"
    by (intro sublist_skip) auto
  have "sublist '': 404'' ('': '' @ show_nat s @ '' '' @ raw) \<longleftrightarrow>
        prefix '': 404'' ('': '' @ show_nat s @ '' '' @ raw) \<or> sublist '': 404'' (('' '' @ show_nat s @ '' '') @ raw)"
    by (simp add: sublist_Cons_right)
  then show ?thesis using a b by simp
qed

lemma other_marker_in_tail:
  assumes "p \<in> set markers" "p \<noteq> '': 404''"
  shows "sublist p ('': '' @ show_nat s @ '' '' @ raw) \<longleftrightarrow> sublist p raw"
proof -
  have "hd p \<notin> set ('': '' @ show_nat s @ '' '')"
    using assms show_nat_digits [of s] by (auto simp: markers_def)
  then have "sublist p (('': '' @ show_nat s @ '' '') @ raw) \<longleftrightarrow> sublist p raw"
    using marker_seps [OF assms(1)] by (intro sublist_skip) auto
  then show ?thesis by simp
qed

lemma marker_in_failed_msg:
  assumes "p \<in> set markers"
  shows "sublist p (failed_msg v model s raw) \<longleftrightarrow>
     sublist p model \<or> sublist p ('': '' @ show_nat s @ '' '' @ raw)"
proof -
  have sep: "sublist p (failed_msg v model s raw) \<longleftrightarrow>
      sublist p (''Gemini generateContent failed ('' @ version_str v) \<or> sublist p model \<or>
      sublist p ('': '' @ show_nat s @ '' '' @ raw)"
    unfolding failed_msg_split using marker_seps [OF assms] by (intro sublist_two_seps) auto
  show ?thesis
    using sep no_marker_in_failed_head [OF assms, of v] by blast
qed

lemma isGemini_failed_msg:
  "isGeminiNotFoundOrUnsupported (failed_msg v model s raw) \<longleftrightarrow>
     prefix ''404'' (show_nat s) \<or> isGeminiNotFoundOrUnsupported model \<or> isGeminiNotFoundOrUnsupported raw"
proof -
  have "\<And>p. p \<in> set markers \<Longrightarrow> sublist p (failed_msg v model s raw) \<longleftrightarrow>
       sublist p model \<or> (if p = '': 404'' then prefix ''404'' (show_nat s) \<or> sublist p raw else sublist p raw)"
    using marker_in_failed_msg colon_404_in_tail other_marker_in_tail by simp
  then show ?thesis
    unfolding isGemini_markers by (auto simp: markers_def)
qed

lemma show_nat_3: 
  assumes "100 \<le> s" "s < 1000"
  shows "show_nat s = [digit_char (s div 100), digit_char (s div 10 mod 10), digit_char (s mod 10)]"
proof -
  have "s div 10 div 10 < 10" using assms by simp
  moreover have "\<not> s div 10 < 10" using assms by simp
  moreover have "\<not> s < 10" using assms by simp
  moreover have "s div 10 div 10 = s div 100" using div_mult2_eq [of s 10 10] by simp
  ultimately show ?thesis
    by (simp add: show_nat.simps [of s] show_nat.simps [of "s div 10"] show_nat.simps [of "s div 100"])
qed

lemma digit_char_inj:
  assumes "j < 10" "k < 10"
  shows "digit_char j = digit_char k \<longleftrightarrow> j = k"
proof -
  have "distinct ''0123456789''" by simp
  then show ?thesis
    unfolding digit_char_def using assms by (intro nth_eq_iff_index_eq) simp_all
qed

lemma show_nat_1_no_404: "s < 10 \<Longrightarrow> \<not> prefix ''404'' (show_nat s)"
  by (simp add: show_nat.simps [of s])

lemma show_nat_2_no_404: "10 \<le> s \<Longrightarrow> s < 100 \<Longrightarrow> \<not> prefix ''404'' (show_nat s)"
proof -
  assume a: "10 \<le> s" "s < 100"
  then have "s div 10 < 10" by simp
  with a have "show_nat s = [digit_char (s div 10), digit_char (s mod 10)]"
    by (simp add: show_nat.simps [of s] show_nat.simps [of "s div 10"])
  then show ?thesis by simp
qed

lemma prefix_404_three: "prefix ''404'' [a, b, c] \<longleftrightarrow> a = CHR ''4'' \<and> b = CHR ''0'' \<and> c = CHR ''4''"
  by auto

lemma decimal_3: "(s::nat) = 100 * (s div 100) + 10 * (s div 10 mod 10) + s mod 10"
proof -
  have "s mod 100 = 10 * (s div 10 mod 10) + s mod 10"
    using mod_mult2_eq [of s 10 10] by simp
  moreover have "s = 100 * (s div 100) + s mod 100" by simp
  ultimately show ?thesis by linarith
qed

lemma digits_404: "(4 = s div 100 \<and> 0 = s div 10 mod 10 \<and> 4 = s mod 10) \<longleftrightarrow> s = (404::nat)"
proof
  assume "4 = s div 100 \<and> 0 = s div 10 mod 10 \<and> 4 = s mod 10"
  then show "s = 404" using decimal_3 [of s] by simp
next
  assume "s = 404" then show "4 = s div 100 \<and> 0 = s div 10 mod 10 \<and> 4 = s mod 10" by simp
qed

lemma prefix_404_show_nat:
  assumes "s < 1000"
  shows "prefix ''404'' (show_nat s) \<longleftrightarrow> s = 404"
proof -
  consider "s < 10" | "10 \<le> s" "s < 100" | "100 \<le> s" by linarith
  then show ?thesis
  proof cases
    case 1
    then show ?thesis using show_nat_1_no_404 [of s] by simp
  next
    case 2
    then show ?thesis using show_nat_2_no_404 [of s] by simp
  next
    case 3
    have c4: "CHR ''4'' = digit_char 4" and c0: "CHR ''0'' = digit_char 0"
      by (simp_all add: digit_char_def)
    have b: "s div 100 < 10" "s div 10 mod 10 < 10" "s mod 10 < 10"
      using assms by simp_all
    have "prefix ''404'' (show_nat s) \<longleftrightarrow>
        digit_char (s div 100) = digit_char 4 \<and> digit_char (s div 10 mod 10) = digit_char 0 \<and>
        digit_char (s mod 10) = digit_char 4"
      unfolding show_nat_3 [OF 3 assms] prefix_404_three unfolding c4 c0 ..
    also have "\<dots> \<longleftrightarrow> 4 = s div 100 \<and> 0 = s div 10 mod 10 \<and> 4 = s mod 10"
      using digit_char_inj [OF b(1), of 4] digit_char_inj [OF b(2), of 0] digit_char_inj [OF b(3), of 4]
      by auto
    also have "\<dots> \<longleftrightarrow> s = 404" by (rule digits_404)
    finally show ?thesis .
  qed
qed

section \<open>The candidate order\<close>

lemma set_first_occurrences [simp]: "set (first_occurrences xs) = set xs"
  by (induction xs) auto

lemma distinct_first_occurrences [simp]: "distinct (first_occurrences xs)"
  by (induction xs) auto

lemma fold_push_preferred:
  "fold (\<lambda>p candidates. if p \<in> A then candidates @ [p] else candidates) ps acc
     = acc @ filter (\<lambda>p. p \<in> A) ps"
  by (induction ps arbitrary: acc) simp_all

lemma fold_push_new:
  "fold (\<lambda>a candidates. if a \<notin> set candidates then candidates @ [a] else candidates) xs acc
     = acc @ filter (\<lambda>a. a \<notin> set acc) (first_occurrences xs)"
proof (induction xs arbitrary: acc)
  case Nil
  then show ?case by simp
next
  case (Cons x xs)
  show ?case
  proof (cases "x \<in> set acc")
    case True
    then have "filter (\<lambda>a. a \<notin> set acc) (filter (\<lambda>y. y \<noteq> x) (first_occurrences xs))
        = filter (\<lambda>a. a \<notin> set acc) (first_occurrences xs)"
      by (auto intro: filter_cong)
    with True show ?thesis by (simp add: Cons.IH)
  next
    case False
    have "filter (\<lambda>a. a \<notin> set (acc @ [x])) (first_occurrences xs)
        = filter (\<lambda>a. a \<notin> set acc) (filter (\<lambda>y. y \<noteq> x) (first_occurrences xs))"
      by (auto intro: filter_cong)
    with False show ?thesis by (simp add: Cons.IH)
  qed
qed

lemma candidates_of_eq:
  "candidates_of available =
     filter (\<lambda>p. p \<in> set available) preferred @
     filter (\<lambda>a. a \<notin> set preferred) (first_occurrences available)"
proof -
  have "filter (\<lambda>a. a \<notin> set (filter (\<lambda>p. p \<in> set available) preferred)) (first_occurrences available)
      = filter (\<lambda>a. a \<notin> set preferred) (first_occurrences available)"
    by (rule filter_cong) auto
  then show ?thesis
    by (simp add: candidates_of_def fold_push_preferred fold_push_new)
qed

lemma distinct_preferred: "distinct preferred"
  by (simp add: preferred_def)

lemma distinct_candidates_of: "distinct (candidates_of available)"
  by (auto simp: candidates_of_eq distinct_preferred)

lemma set_candidates_of: "set (candidates_of available) = set available"
  by (auto simp: candidates_of_eq)

section \<open>The loops over candidates and versions\<close>

lemma console_warn_pair [simp]: "console_warn msg (w, log) = (w, log @ [Warn msg])"
  by (simp add: console_warn_def emit_def)

lemma try_candidates_skip:
  "skipped gc model \<Longrightarrow>
     try_candidates fetch JSON_parse version apiKey prompt gc (model # rest) st =
     try_candidates fetch JSON_parse version apiKey prompt gc rest st"
  by (simp add: skipped_def)

lemma try_candidates_try:
  "\<not> skipped gc model \<Longrightarrow>
     try_candidates fetch JSON_parse version apiKey prompt gc (model # rest) st =
       (case generateContent fetch JSON_parse version model apiKey prompt st of
           (Inr answer, st1) \<Rightarrow>
             (Return \<lparr>picked_version = version, picked_model = model, picked_text = answer\<rparr>, st1)
         | (Inl msg, st1) \<Rightarrow>
             if isGeminiNotFoundOrUnsupported msg then
               try_candidates fetch JSON_parse version apiKey prompt gc rest
                 (console_warn (''[WARN] generateContent failed: '' @ msg) st1)
             else (Throw msg, console_warn (''[WARN] generateContent failed: '' @ msg) st1))"
  by (auto simp: skipped_def)

declare try_candidates.simps(2) [simp del]

lemma retry_events_Cons:
  "\<exists>evs. retry_events fetch url init t w k = Fetch url init t # evs"
  by (simp add: retry_events_def)

lemma generateContent_events:
  "\<exists>k. stops_at fetch (generate_url version model) (generate_init apiKey prompt) 30000 3 w k \<and>
     generateContent fetch JSON_parse version model apiKey prompt (w, log) =
       (generated JSON_parse version model
          (outcome_of (nth_outcome fetch (generate_url version model) (generate_init apiKey prompt) 30000 w k)),
        (nth_world fetch (generate_url version model) (generate_init apiKey prompt) 30000 w (Suc k),
         log @ retry_events fetch (generate_url version model) (generate_init apiKey prompt) 30000 w k))"
proof -
  obtain k where k: "stops_at fetch (generate_url version model) (generate_init apiKey prompt) 30000 3 w k"
    using stops_at_exists [of fetch "generate_url version model" "generate_init apiKey prompt" 30000 3 w]
    by blast
  show ?thesis
    using k generateContent_stops_at [OF k] by blast
qed

lemma generateContent_log:
  "\<exists>evs. snd (snd (generateContent fetch JSON_parse version model apiKey prompt (w, log))) =
     log @ Fetch (generate_url version model) (generate_init apiKey prompt) 30000 # evs"
proof -
  obtain k where "snd (snd (generateContent fetch JSON_parse version model apiKey prompt (w, log))) =
      log @ retry_events fetch (generate_url version model) (generate_init apiKey prompt) 30000 w k"
    using generateContent_events [of fetch version model apiKey prompt w JSON_parse log] by auto
  then show ?thesis
    using retry_events_Cons [of fetch "generate_url version model" "generate_init apiKey prompt" 30000 w k]
    by auto
qed

lemma try_candidates_log:
  "\<exists>evs. snd (snd (try_candidates fetch JSON_parse version apiKey prompt gc cs (w, log))) = log @ evs"
proof (induction cs arbitrary: w log)
  case Nil
  then show ?case by simp
next
  case (Cons c cs)
  show ?case
  proof (cases "skipped gc c")
    case True
    then show ?thesis using Cons.IH [of w log] by (simp add: try_candidates_skip)
  next
    case False
    obtain r w1 log1 where g: "generateContent fetch JSON_parse version c apiKey prompt (w, log) = (r, (w1, log1))"
      by (metis prod.exhaust)
    obtain evs where l1: "log1 = log @ evs"
      using generateContent_log [of fetch JSON_parse version c apiKey prompt w log] g by auto
    show ?thesis
    proof (cases r)
      case (Inr answer)
      then show ?thesis using False g l1 by (simp add: try_candidates_try)
    next
      case (Inl msg)
      show ?thesis
      proof (cases "isGeminiNotFoundOrUnsupported msg")
        case True
        obtain evs' where "snd (snd (try_candidates fetch JSON_parse version apiKey prompt gc cs
            (w1, log1 @ [Warn (''[WARN] generateContent failed: '' @ msg)]))) =
            (log1 @ [Warn (''[WARN] generateContent failed: '' @ msg)]) @ evs'"
          using Cons.IH by blast
        then show ?thesis using False g l1 Inl True by (simp add: try_candidates_try)
      next
        case no: False
        then show ?thesis using False g l1 Inl by (simp add: try_candidates_try)
      qed
    qed
  qed
qed

lemma try_candidates_first_fetch:
  assumes "\<not> skipped gc model"
  shows "\<exists>evs. snd (snd (try_candidates fetch JSON_parse version apiKey prompt gc (model # rest) (w, log))) =
     log @ Fetch (generate_url version model) (generate_init apiKey prompt) 30000 # evs"
proof -
  obtain r w1 log1 where g: "generateContent fetch JSON_parse version model apiKey prompt (w, log) = (r, (w1, log1))"
    by (metis prod.exhaust)
  obtain evs where l1: "log1 = log @ Fetch (generate_url version model) (generate_init apiKey prompt) 30000 # evs"
    using generateContent_log [of fetch JSON_parse version model apiKey prompt w log] g by auto
  show ?thesis
  proof (cases r)
    case (Inr answer)
    then show ?thesis using assms g l1 by (simp add: try_candidates_try)
  next
    case (Inl msg)
    show ?thesis
    proof (cases "isGeminiNotFoundOrUnsupported msg")
      case True
      obtain evs' where "snd (snd (try_candidates fetch JSON_parse version apiKey prompt gc rest
          (w1, log1 @ [Warn (''[WARN] generateContent failed: '' @ msg)]))) =
          (log1 @ [Warn (''[WARN] generateContent failed: '' @ msg)]) @ evs'"
        using try_candidates_log [of fetch JSON_parse version apiKey prompt gc rest w1
            "log1 @ [Warn (''[WARN] generateContent failed: '' @ msg)]"] by blast
      then show ?thesis using assms g l1 Inl True by (simp add: try_candidates_try)
    next
      case False
      then show ?thesis using assms g l1 Inl by (simp add: try_candidates_try)
    qed
  qed
qed

lemma capable_is_attempted:
  assumes "m \<in> set models" and "string_name m = Some n" and "modelSupportsGenerateContent m"
  shows "shortModelName n \<in> generateCapable_of models \<and>
     \<not> skipped (generateCapable_of models) (shortModelName n) \<and>
     (shortModelName n \<noteq> [] \<longrightarrow> shortModelName n \<in> set (candidates_of (available_of models))) \<and>
     (\<exists>evs. snd (snd (try_candidates fetch JSON_parse version apiKey prompt (generateCapable_of models)
                (shortModelName n # rest) (w, log))) =
        log @ Fetch (generate_url version (shortModelName n)) (generate_init apiKey prompt) 30000 # evs)"
proof -
  have cap: "shortModelName n \<in> generateCapable_of models"
    using assms by (force simp: generateCapable_of_def)
  then have ns: "\<not> skipped (generateCapable_of models) (shortModelName n)"
    by (simp add: skipped_def)
  have av: "shortModelName n \<noteq> [] \<longrightarrow> shortModelName n \<in> set (available_of models)"
    using assms by (force simp: available_of_def)
  show ?thesis
    using cap ns av try_candidates_first_fetch [OF ns] by (simp add: set_candidates_of)
qed

lemma fetches_of_retry_events:
  "filter is_Fetch (retry_events fetch url init t w k) = replicate (Suc k) (Fetch url init t)"
proof -
  have "filter is_Fetch (concat (map (\<lambda>i. [Warn (retry_warning (nth_outcome fetch url init t w (i - 1)) (i - 1)),
                          Sleep (800 * 2 ^ (i - 1)), Fetch url init t]) [1..<Suc k]))
      = replicate k (Fetch url init t)"
  proof (induction k)
    case 0
    then show ?case by simp
  next
    case (Suc k)
    have "[1..<Suc (Suc k)] = [1..<Suc k] @ [Suc k]" by simp
    then show ?case using Suc
      by (simp only: map_append concat_append filter_append)
         (simp add: is_Fetch_def replicate_append_same)
  qed
  then show ?thesis by (simp add: retry_events_def is_Fetch_def)
qed

lemma table_world [simp]: "nth_world (table_fetch tbl) url init t w n = w"
  by (induction n) (simp_all add: nth_world_Suc table_fetch_def)

lemma table_outcome:
  "nth_outcome (table_fetch tbl) url init t w n =
     (case map_of tbl url of Some a \<Rightarrow> a | None \<Rightarrow> Rejected ''fetch failed'')"
  by (simp add: nth_outcome_def) (simp add: table_fetch_def)

lemma listModels_eq:
  assumes "fetch (list_url version) (list_init apiKey) 15000 w = (a, w')"
  shows "listModels fetch JSON_parse version apiKey (w, log) =
     (listed JSON_parse version a, (w', log @ [Fetch (list_url version) (list_init apiKey) 15000]))"
  using assms
  by (auto simp: listModels_def listed_def fetchWithTimeout_def split: attempt.splits sum.splits)

lemma try_versions_listing_error:
  assumes "fetch (list_url version) (list_init apiKey) 15000 w = (a, w')"
    and "listed JSON_parse version a = Inl e"
  shows "try_versions fetch JSON_parse apiKey prompt (version # rest) (w, log) =
     try_versions fetch JSON_parse apiKey prompt rest
       (w', log @ [Fetch (list_url version) (list_init apiKey) 15000,
                   Warn (''[WARN] listModels failed ('' @ version_str version @ ''): '' @ e)])"
  using assms by (simp add: listModels_eq)

lemma try_versions_log:
  "\<exists>evs. snd (snd (try_versions fetch JSON_parse apiKey prompt vs (w, log))) = log @ evs"
proof (induction vs arbitrary: w log)
  case Nil
  then show ?case by simp
next
  case (Cons v vs)
  obtain a w' where f: "fetch (list_url v) (list_init apiKey) 15000 w = (a, w')"
    by (metis prod.exhaust)
  have lm: "listModels fetch JSON_parse v apiKey (w, log) =
      (listed JSON_parse v a, (w', log @ [Fetch (list_url v) (list_init apiKey) 15000]))"
    using f by (rule listModels_eq)
  show ?case
  proof (cases "listed JSON_parse v a")
    case (Inl e)
    obtain evs where "snd (snd (try_versions fetch JSON_parse apiKey prompt vs
        (w', (log @ [Fetch (list_url v) (list_init apiKey) 15000]) @
             [Warn (''[WARN] listModels failed ('' @ version_str v @ ''): '' @ e)]))) =
        ((log @ [Fetch (list_url v) (list_init apiKey) 15000]) @
             [Warn (''[WARN] listModels failed ('' @ version_str v @ ''): '' @ e)]) @ evs"
      using Cons.IH by blast
    then show ?thesis using lm Inl by simp
  next
    case (Inr models)
    obtain r w2 log2 where tc: "try_candidates fetch JSON_parse v apiKey prompt (generateCapable_of models)
        (candidates_of (available_of models)) (w', log @ [Fetch (list_url v) (list_init apiKey) 15000])
        = (r, (w2, log2))"
      by (metis prod.exhaust)
    obtain evs where l2: "log2 = (log @ [Fetch (list_url v) (list_init apiKey) 15000]) @ evs"
      using try_candidates_log [of fetch JSON_parse v apiKey prompt "generateCapable_of models"
          "candidates_of (available_of models)" w' "log @ [Fetch (list_url v) (list_init apiKey) 15000]"] tc
      by auto
    show ?thesis
    proof (cases r)
      case (Return p)
      then show ?thesis using lm Inr tc l2 by simp
    next
      case (Throw e)
      then show ?thesis using lm Inr tc l2 by simp
    next
      case Fall_through
      obtain evs' where "snd (snd (try_versions fetch JSON_parse apiKey prompt vs (w2, log2))) = log2 @ evs'"
        using Cons.IH by blast
      then show ?thesis using lm Inr tc l2 Fall_through by simp
    qed
  qed
qed

lemma try_versions_first_fetch:
  "\<exists>evs. snd (snd (try_versions fetch JSON_parse apiKey prompt (version # rest) (w, log))) =
     log @ Fetch (list_url version) (list_init apiKey) 15000 # evs"
proof -
  obtain a w' where f: "fetch (list_url version) (list_init apiKey) 15000 w = (a, w')"
    by (metis prod.exhaust)
  have lm: "listModels fetch JSON_parse version apiKey (w, log) =
      (listed JSON_parse version a, (w', log @ [Fetch (list_url version) (list_init apiKey) 15000]))"
    using f by (rule listModels_eq)
  show ?thesis
  proof (cases "listed JSON_parse version a")
    case (Inl e)
    obtain evs where "snd (snd (try_versions fetch JSON_parse apiKey prompt rest
        (w', (log @ [Fetch (list_url version) (list_init apiKey) 15000]) @
             [Warn (''[WARN] listModels failed ('' @ version_str version @ ''): '' @ e)]))) =
        ((log @ [Fetch (list_url version) (list_init apiKey) 15000]) @
             [Warn (''[WARN] listModels failed ('' @ version_str version @ ''): '' @ e)]) @ evs"
      using try_versions_log [of fetch JSON_parse apiKey prompt rest w'
          "(log @ [Fetch (list_url version) (list_init apiKey) 15000]) @
             [Warn (''[WARN] listModels failed ('' @ version_str version @ ''): '' @ e)]"] by blast
    then show ?thesis using lm Inl by simp
  next
    case (Inr models)
    obtain r w2 log2 where tc: "try_candidates fetch JSON_parse version apiKey prompt (generateCapable_of models)
        (candidates_of (available_of models)) (w', log @ [Fetch (list_url version) (list_init apiKey) 15000])
        = (r, (w2, log2))"
      by (metis prod.exhaust)
    obtain evs where l2: "log2 = (log @ [Fetch (list_url version) (list_init apiKey) 15000]) @ evs"
      using try_candidates_log [of fetch JSON_parse version apiKey prompt "generateCapable_of models"
          "candidates_of (available_of models)" w' "log @ [Fetch (list_url version) (list_init apiKey) 15000]"] tc
      by auto
    show ?thesis
    proof (cases r)
      case (Return p)
      then show ?thesis using lm Inr tc l2 by simp
    next
      case (Throw e)
      then show ?thesis using lm Inr tc l2 by simp
    next
      case Fall_through
      obtain evs' where "snd (snd (try_versions fetch JSON_parse apiKey prompt rest (w2, log2))) = log2 @ evs'"
        using try_versions_log [of fetch JSON_parse apiKey prompt rest w2 log2] by blast
      then show ?thesis using lm Inr tc l2 Fall_through by simp
    qed
  qed
qed

lemma table_fetch_eq:
  "table_fetch tbl url init t w = (case map_of tbl url of Some a \<Rightarrow> a | None \<Rightarrow> Rejected ''fetch failed'', w)"
  by (simp add: table_fetch_def)

lemma generateContent_table:
  assumes "(case map_of tbl (generate_url version model) of Some a \<Rightarrow> a | None \<Rightarrow> Rejected ''fetch failed'') = a"
    and "\<not> retryable a"
  shows "generateContent (table_fetch tbl) JSON_parse version model apiKey prompt (w, log) =
     (generated JSON_parse version model (outcome_of a),
      (w, log @ [Fetch (generate_url version model) (generate_init apiKey prompt) 30000]))"
proof -
  have "stops_at (table_fetch tbl :: 'a fetch) (generate_url version model) (generate_init apiKey prompt) 30000 3 w 0"
    using assms by (simp add: stops_at_def table_outcome)
  from generateContent_stops_at [OF this] show ?thesis
    using assms by (simp add: table_outcome retry_events_def)
qed

lemma listModels_table:
  "listModels (table_fetch tbl) JSON_parse version apiKey (w, log) =
     (listed JSON_parse version
        (case map_of tbl (list_url version) of Some a \<Rightarrow> a | None \<Rightarrow> Rejected ''fetch failed''),
      (w, log @ [Fetch (list_url version) (list_init apiKey) 15000]))"
  by (rule listModels_eq) (simp add: table_fetch_def)

lemma demo_available:
  "available_of demo_models = [''gemini-pro-vision'', ''embedding-001'', ''gemini-2.0-flash-lite'', ''gemini-exp'']"
  by (simp add: available_of_def demo_models_def string_name_def shortModelName_def)

lemma demo_capable:
  "generateCapable_of demo_models = {''gemini-pro-vision'', ''gemini-2.0-flash-lite'', ''gemini-exp''}"
  by (simp add: generateCapable_of_def demo_models_def string_name_def shortModelName_def
        modelSupportsGenerateContent_def)

lemma demo_candidates:
  "candidates_of (available_of demo_models) =
     [''gemini-2.0-flash-lite'', ''gemini-pro-vision'', ''embedding-001'', ''gemini-exp'']"
  by (simp add: demo_available candidates_of_def preferred_def)

lemma demo_bodies_distinct:
  "catalog_body \<noteq> answer_body" "catalog_body \<noteq> blank_body" "answer_body \<noteq> blank_body"
  by (simp_all add: catalog_body_def answer_body_def blank_body_def)

lemma demo_listed: "listed demo_parse version (Response 200 catalog_body) = Inr demo_models"
  by (simp add: listed_def resp_ok_def demo_parse_def)

lemma demo_answer: "generated demo_parse version model (Inr (200, answer_body)) = Inr ''Hello''"
  using demo_bodies_distinct
  by (simp add: generated_def resp_ok_def demo_parse_def response_text_def trim_def is_ws_def)

lemma demo_blank: "generated demo_parse version model (Inr (200, blank_body)) = Inl (empty_msg version model blank_body)"
  using demo_bodies_distinct
  by (simp add: generated_def resp_ok_def demo_parse_def response_text_def)

lemma try_candidates_failure:
  assumes "\<not> skipped gc model"
    and "generateContent fetch JSON_parse version model apiKey prompt st = (Inl msg, st1)"
  shows "try_candidates fetch JSON_parse version apiKey prompt gc (model # rest) st =
     (if isGeminiNotFoundOrUnsupported msg then
        try_candidates fetch JSON_parse version apiKey prompt gc rest
          (console_warn (''[WARN] generateContent failed: '' @ msg) st1)
      else (Throw msg, console_warn (''[WARN] generateContent failed: '' @ msg) st1))"
  using assms by (simp add: try_candidates_try)

lemma try_versions_Throw:
  assumes "listModels fetch JSON_parse version apiKey st0 = (Inr models, st1)"
    and "try_candidates fetch JSON_parse version apiKey prompt (generateCapable_of models)
           (candidates_of (available_of models)) st1 = (Throw e, st2)"
  shows "try_versions fetch JSON_parse apiKey prompt (version # rest) st0 = (Inl e, st2)"
  using assms by simp

lemma generated_not_ok:
  "\<not> resp_ok status \<Longrightarrow>
     generated JSON_parse version model (outcome_of (Response status raw)) =
       Inl (failed_msg version model status raw)"
  by (simp add: generated_def outcome_of_def)

lemma show_nat_404: "show_nat 404 = ''404''"
  by (simp add: show_nat.simps digit_char_def)

lemma stops_at_table_0:
  assumes "(case map_of tbl url of Some a \<Rightarrow> a | None \<Rightarrow> Rejected ''fetch failed'') = a"
    and "\<not> retryable a"
  shows "stops_at (table_fetch tbl) url init t retries w 0"
  using assms by (simp add: stops_at_def table_outcome)

lemma retry_events_0: "retry_events fetch url init t w 0 = [Fetch url init t]"
  by (simp add: retry_events_def)

lemma no_marker_demo:
  "\<not> isGeminiNotFoundOrUnsupported ''gemini-2.0-flash-lite''"
  "\<not> isGeminiNotFoundOrUnsupported ''gemini-pro-vision''"
  "\<not> isGeminiNotFoundOrUnsupported ''denied''"
  "\<not> isGeminiNotFoundOrUnsupported ''gone''"
  by (simp_all add: isGeminiNotFoundOrUnsupported_def str_includes_def sublist_Cons_right)

lemma demo_skipped:
  "\<not> skipped (generateCapable_of demo_models) ''gemini-2.0-flash-lite''"
  "\<not> skipped (generateCapable_of demo_models) ''gemini-pro-vision''"
  "skipped (generateCapable_of demo_models) ''embedding-001''"
  "\<not> skipped (generateCapable_of demo_models) ''gemini-exp''"
  by (simp_all add: demo_capable skipped_def)

lemma trim_Nil_iff: "trim s = [] \<longleftrightarrow> list_all is_ws s"
proof -
  have 1: "trim s = [] \<longleftrightarrow> (\<forall>x \<in> set (dropWhile is_ws s). is_ws x)"
    by (simp add: trim_def)
  have 2: "(\<forall>x \<in> set (dropWhile is_ws s). is_ws x) \<longleftrightarrow> (\<forall>x \<in> set s. is_ws x)"
  proof
    assume all: "\<forall>x \<in> set (dropWhile is_ws s). is_ws x"
    have "dropWhile is_ws s = []"
    proof (rule ccontr)
      assume ne: "dropWhile is_ws s \<noteq> []"
      then have "\<not> is_ws (hd (dropWhile is_ws s))" by (rule hd_dropWhile)
      moreover have "hd (dropWhile is_ws s) \<in> set (dropWhile is_ws s)" using ne by (rule hd_in_set)
      ultimately show False using all by blast
    qed
    then show "\<forall>x \<in> set s. is_ws x" by (simp only: dropWhile_eq_Nil_conv)
  next
    assume "\<forall>x \<in> set s. is_ws x"
    then show "\<forall>x \<in> set (dropWhile is_ws s). is_ws x" by (blast dest: set_dropWhileD)
  qed
  show ?thesis unfolding 1 2 by (simp add: list_all_iff)
qed

lemma generated_no_text:
  assumes "resp_ok status" and "JSON_parse raw = Inr data" and "no_text data"
  shows "generated JSON_parse version model (outcome_of (Response status raw)) =
     Inl (empty_msg version model raw)"
  using assms
  by (auto simp: generated_def outcome_of_def no_text_def trim_Nil_iff split: option.splits json.splits)

lemma generated_Inr_text:
  assumes "generated JSON_parse version model r = Inr answer"
  shows "trim answer \<noteq> []"
  using assms
  by (auto simp: generated_def split: sum.splits prod.splits if_splits option.splits json.splits)

lemma demo_parse_blank: "demo_parse blank_body = Inr (JObj [(''candidates'', JArr [])])"
  using demo_bodies_distinct by (simp add: demo_parse_def)

lemma no_marker_blank: "\<not> isGeminiNotFoundOrUnsupported blank_body"
  by (simp add: isGeminiNotFoundOrUnsupported_def str_includes_def blank_body_def sublist_Cons_right)

lemma try_candidates_stable:
  assumes "\<forall>m s s'. error_of (fst (generateContent f1 JSON_parse version m apiKey prompt s)) =
                     error_of (fst (generateContent f2 JSON_parse version m apiKey prompt s'))"
  shows "flow_selection (fst (try_candidates f1 JSON_parse version apiKey prompt gc cs s)) =
         flow_selection (fst (try_candidates f2 JSON_parse version apiKey prompt gc cs s'))"
proof (induction cs arbitrary: s s')
  case Nil
  then show ?case by simp
next
  case (Cons c cs)
  show ?case
  proof (cases "skipped gc c")
    case True
    then show ?thesis using Cons.IH by (simp add: try_candidates_skip)
  next
    case False
    obtain r1 t1 where g1: "generateContent f1 JSON_parse version c apiKey prompt s = (r1, t1)"
      by (metis prod.exhaust)
    obtain r2 t2 where g2: "generateContent f2 JSON_parse version c apiKey prompt s' = (r2, t2)"
      by (metis prod.exhaust)
    have e: "error_of r1 = error_of r2"
      using assms [rule_format, of c s s'] g1 g2 by simp
    show ?thesis
    proof (cases r1)
      case (Inr a1)
      then obtain a2 where "r2 = Inr a2" using e by (cases r2) (auto simp: error_of_def)
      then show ?thesis using False g1 g2 Inr
        by (simp add: try_candidates_try flow_selection_def)
    next
      case (Inl m1)
      then have r2: "r2 = Inl m1" using e by (cases r2) (auto simp: error_of_def)
      show ?thesis
        using False g1 g2 Inl r2 Cons.IH
        by (simp add: try_candidates_try flow_selection_def)
    qed
  qed
qed

lemma try_versions_stable:
  assumes "\<forall>v s s'. fst (listModels f1 JSON_parse v apiKey s) = fst (listModels f2 JSON_parse v apiKey s')"
    and "\<forall>v m s s'. error_of (fst (generateContent f1 JSON_parse v m apiKey prompt s)) =
                     error_of (fst (generateContent f2 JSON_parse v m apiKey prompt s'))"
  shows "selection (fst (try_versions f1 JSON_parse apiKey prompt vs s)) =
         selection (fst (try_versions f2 JSON_parse apiKey prompt vs s'))"
proof (induction vs arbitrary: s s')
  case Nil
  then show ?case by (simp add: selection_def)
next
  case (Cons v vs)
  obtain r1 t1 where l1: "listModels f1 JSON_parse v apiKey s = (r1, t1)" by (metis prod.exhaust)
  obtain r2 t2 where l2: "listModels f2 JSON_parse v apiKey s' = (r2, t2)" by (metis prod.exhaust)
  have r: "r1 = r2" using assms(1) [rule_format, of v s s'] l1 l2 by simp
  show ?case
  proof (cases r1)
    case (Inl e)
    then have "listModels f1 JSON_parse v apiKey s = (Inl e, t1)"
        "listModels f2 JSON_parse v apiKey s' = (Inl e, t2)"
      using l1 l2 r by simp_all
    then show ?thesis using Cons.IH by simp
  next
    case (Inr models)
    then have l1': "listModels f1 JSON_parse v apiKey s = (Inr models, t1)"
      and l2': "listModels f2 JSON_parse v apiKey s' = (Inr models, t2)"
      using l1 l2 r by simp_all
    let ?gc = "generateCapable_of models" and ?cs = "candidates_of (available_of models)"
    obtain c1 u1 where t1: "try_candidates f1 JSON_parse v apiKey prompt ?gc ?cs t1 = (c1, u1)"
      by (metis prod.exhaust)
    obtain c2 u2 where t2: "try_candidates f2 JSON_parse v apiKey prompt ?gc ?cs t2 = (c2, u2)"
      by (metis prod.exhaust)
    have "\<forall>m s s'. error_of (fst (generateContent f1 JSON_parse v m apiKey prompt s)) =
                     error_of (fst (generateContent f2 JSON_parse v m apiKey prompt s'))"
      using assms(2) by blast
    from try_candidates_stable [OF this, of ?gc ?cs t1 t2]
    have fs: "flow_selection c1 = flow_selection c2" using t1 t2 by simp
    show ?thesis
    proof (cases c1)
      case (Return p1)
      then obtain p2 where "c2 = Return p2" "picked_version p1 = picked_version p2"
          "picked_model p1 = picked_model p2"
        using fs by (cases c2) (auto simp: flow_selection_def)
      then show ?thesis using l1' l2' t1 t2 Return by (simp add: selection_def)
    next
      case (Throw e)
      then have "c2 = Throw e" using fs by (cases c2) (auto simp: flow_selection_def)
      then show ?thesis using l1' l2' t1 t2 Throw by (simp add: selection_def)
    next
      case Fall_through
      then have "c2 = Fall_through" using fs by (cases c2) (auto simp: flow_selection_def)
      then show ?thesis using l1' l2' t1 t2 Fall_through Cons.IH by simp
    qed
  qed
qed

lemma generateContent_table_result:
  "fst (generateContent (table_fetch tbl) JSON_parse version model apiKey prompt s) =
     generated JSON_parse version model
       (outcome_of (case map_of tbl (generate_url version model) of Some a \<Rightarrow> a
                    | None \<Rightarrow> Rejected ''fetch failed''))"
proof -
  obtain w log where s: "s = (w, log)" by (cases s)
  show ?thesis
    using generateContent_events [of "table_fetch tbl" version model apiKey prompt w JSON_parse log]
    by (auto simp: s table_outcome)
qed

section \<open>The order of the attempts\<close>

lemma requested_urls_append [simp]:
  "requested_urls (a @ b) = requested_urls a @ requested_urls b"
  by (simp add: requested_urls_def)

lemma requested_urls_simps [simp]:
  "requested_urls [] = []"
  "requested_urls (Warn msg # evs) = requested_urls evs"
  "requested_urls (Sleep ms # evs) = requested_urls evs"
  "requested_urls (Fetch url init t # evs) = url # requested_urls evs"
  by (simp_all add: requested_urls_def)

lemma requested_urls_retry_events:
  "requested_urls (retry_events fetch url init t w k) = replicate (Suc k) url"
proof -
  have "requested_urls (concat (map (\<lambda>i. [Warn (retry_warning (nth_outcome fetch url init t w (i - 1)) (i - 1)),
                          Sleep (800 * 2 ^ (i - 1)), Fetch url init t]) [1..<Suc k]))
      = replicate k url"
  proof (induction k)
    case 0
    then show ?case by (simp add: requested_urls_def)
  next
    case (Suc k)
    have "[1..<Suc (Suc k)] = [1..<Suc k] @ [Suc k]" by simp
    then show ?case using Suc
      by (simp only: map_append concat_append requested_urls_append)
         (simp add: requested_urls_def replicate_append_same)
  qed
  then show ?thesis
    unfolding retry_events_def
    using requested_urls_append [of "[Fetch url init t]"] by (simp add: requested_urls_def)
qed

lemma generate_url_inj [simp]: "generate_url v m = generate_url v m' \<longleftrightarrow> m = m'"
  by (simp add: generate_url_def)

lemma remdups_adj_replicate_append:
  assumes "ys = [] \<or> hd ys \<noteq> u"
  shows "remdups_adj (replicate (Suc k) u @ ys) = u # remdups_adj ys"
proof (induction k)
  case 0
  show ?case using assms by (cases ys) auto
next
  case (Suc k)
  then show ?case by simp
qed

lemma try_candidates_order:
  assumes "distinct cs"
  shows "\<exists>evs n. snd (snd (try_candidates fetch JSON_parse version apiKey prompt gc cs (w, log))) = log @ evs \<and>
     attempt_order evs = map (generate_url version) (take n (attemptable gc cs))"
  using assms
proof (induction cs arbitrary: w log)
  case Nil
  then show ?case by (simp add: attempt_order_def requested_urls_def attemptable_def)
next
  case (Cons c cs)
  show ?case
  proof (cases "skipped gc c")
    case True
    then show ?thesis using Cons by (simp add: try_candidates_skip attemptable_def)
  next
    case False
    let ?u = "generate_url version c" and ?i = "generate_init apiKey prompt"
    obtain k where g: "generateContent fetch JSON_parse version c apiKey prompt (w, log) =
       (generated JSON_parse version c (outcome_of (nth_outcome fetch ?u ?i 30000 w k)),
        (nth_world fetch ?u ?i 30000 w (Suc k), log @ retry_events fetch ?u ?i 30000 w k))"
      using generateContent_events [of fetch version c apiKey prompt w JSON_parse log] by blast
    let ?r = "generated JSON_parse version c (outcome_of (nth_outcome fetch ?u ?i 30000 w k))"
    let ?ev = "retry_events fetch ?u ?i 30000 w k"
    have one: "attempt_order ?ev = [?u]"
      using remdups_adj_replicate_append [of "[]" ?u k]
      by (simp add: attempt_order_def requested_urls_retry_events del: replicate_Suc)
    have att: "attemptable gc (c # cs) = c # attemptable gc cs"
      using False by (simp add: attemptable_def)
    show ?thesis
    proof (cases ?r)
      case (Inr answer)
      then have "snd (snd (try_candidates fetch JSON_parse version apiKey prompt gc (c # cs) (w, log))) = log @ ?ev"
        using False g by (simp add: try_candidates_try)
      moreover have "attempt_order ?ev = map (generate_url version) (take 1 (attemptable gc (c # cs)))"
        using one att by simp
      ultimately show ?thesis by blast
    next
      case (Inl msg)
      show ?thesis
      proof (cases "isGeminiNotFoundOrUnsupported msg")
        case False
        then have "snd (snd (try_candidates fetch JSON_parse version apiKey prompt gc (c # cs) (w, log))) =
            log @ (?ev @ [Warn (''[WARN] generateContent failed: '' @ msg)])"
          using \<open>\<not> skipped gc c\<close> g Inl by (simp add: try_candidates_try)
        moreover have "attempt_order (?ev @ [Warn (''[WARN] generateContent failed: '' @ msg)]) =
            map (generate_url version) (take 1 (attemptable gc (c # cs)))"
          using one att by (simp add: attempt_order_def)
        ultimately show ?thesis by blast
      next
        case True
        let ?log1 = "log @ ?ev @ [Warn (''[WARN] generateContent failed: '' @ msg)]"
        obtain evs n where ih: "snd (snd (try_candidates fetch JSON_parse version apiKey prompt gc cs
              (nth_world fetch ?u ?i 30000 w (Suc k), ?log1))) = ?log1 @ evs"
          and ord: "attempt_order evs = map (generate_url version) (take n (attemptable gc cs))"
          using Cons.IH [of "nth_world fetch ?u ?i 30000 w (Suc k)" ?log1] Cons.prems by auto
        have step: "snd (snd (try_candidates fetch JSON_parse version apiKey prompt gc (c # cs) (w, log))) =
            log @ (?ev @ [Warn (''[WARN] generateContent failed: '' @ msg)] @ evs)"
          using \<open>\<not> skipped gc c\<close> g Inl True ih by (simp add: try_candidates_try)
        have "requested_urls evs = [] \<or> hd (requested_urls evs) \<noteq> ?u"
        proof (cases "requested_urls evs = []")
          case True
          then show ?thesis ..
        next
          case ne: False
          then have "hd (requested_urls evs) \<in> set (attempt_order evs)"
            unfolding attempt_order_def
            by (metis hd_in_set hd_remdups_adj remdups_adj_Nil_iff)
          then have "hd (requested_urls evs) \<in> generate_url version ` set cs"
            unfolding ord attemptable_def by (auto dest: in_set_takeD)
          moreover have "c \<notin> set cs" using Cons.prems by simp
          ultimately show ?thesis by auto
        qed
        then have "attempt_order (?ev @ [Warn (''[WARN] generateContent failed: '' @ msg)] @ evs) =
            ?u # attempt_order evs"
          by (simp add: attempt_order_def requested_urls_retry_events remdups_adj_replicate_append
                del: replicate_Suc)
        then have "attempt_order (?ev @ [Warn (''[WARN] generateContent failed: '' @ msg)] @ evs) =
            map (generate_url version) (take (Suc n) (attemptable gc (c # cs)))"
          using ord att by simp
        with step show ?thesis by blast
      qed
    qed
  qed
qed

lemma preferred_before_others:
  assumes "p \<in> set preferred" "p \<in> set available" "q \<in> set available" "q \<notin> set preferred"
  shows "\<exists>xs ys zs. candidates_of available = xs @ p # ys @ q # zs"
proof -
  have "p \<in> set (filter (\<lambda>p. p \<in> set available) preferred)" using assms by simp
  from split_list [OF this]
  obtain a b where P: "filter (\<lambda>p. p \<in> set available) preferred = a @ p # b" by blast
  have "q \<in> set (filter (\<lambda>a. a \<notin> set preferred) (first_occurrences available))" using assms by simp
  from split_list [OF this]
  obtain c d where R: "filter (\<lambda>a. a \<notin> set preferred) (first_occurrences available) = c @ q # d"
    by blast
  have "candidates_of available = a @ p # (b @ c) @ q # d"
    by (simp add: candidates_of_eq P R)
  then show ?thesis by blast
qed

lemma take_covers:
  assumes "q \<notin> set X" "q \<in> set (take n (X @ q # Z))"
  shows "take n (X @ q # Z) = X @ q # take (n - Suc (length X)) Z"
proof (cases "n \<le> length X")
  case True
  then have "take n (X @ q # Z) = take n X" by simp
  then have "q \<in> set X" using assms(2) by (auto dest: in_set_takeD)
  with assms(1) show ?thesis by simp
next
  case False
  then obtain m where m: "n - length X = Suc m" by (cases "n - length X") auto
  then have "m = n - Suc (length X)" by arith
  then show ?thesis using False m by simp
qed

lemma ordered_attempts:
  assumes "cs = xs @ p # ys @ q # zs" "distinct cs" "\<not> skipped gc p"
    and "q \<in> set (take n (attemptable gc cs))"
  shows "\<exists>a b c. take n (attemptable gc cs) = a @ p # b @ q # c"
proof -
  let ?ns = "\<lambda>m. \<not> skipped gc m"
  have "q \<in> set (attemptable gc cs)" using assms(4) by (rule in_set_takeD)
  then have nq: "\<not> skipped gc q" by (simp add: attemptable_def)
  have A: "attemptable gc cs = (filter ?ns xs @ p # filter ?ns ys) @ q # filter ?ns zs"
    using assms(1,3) nq by (simp add: attemptable_def)
  have "q \<notin> set (filter ?ns xs @ p # filter ?ns ys)"
    using assms(1,2) by auto
  then have "take n (attemptable gc cs) =
      (filter ?ns xs @ p # filter ?ns ys) @ q # take (n - Suc (length (filter ?ns xs @ p # filter ?ns ys))) (filter ?ns zs)"
    using assms(4) unfolding A by (rule take_covers)
  then have "take n (attemptable gc cs) =
      filter ?ns xs @ p # filter ?ns ys @ q # take (n - Suc (length (filter ?ns xs @ p # filter ?ns ys))) (filter ?ns zs)"
    by simp
  then show ?thesis by blast
qed

section \<open>Capability of a model\<close>

text \<open>
  Claim C6. A catalog entry with a string name and no \<^verbatim>\<open>supportedGenerationMethods\<close> field
  counts as able to generate: its short name is in \<^verbatim>\<open>generateCapable\<close>, the capability
  filter does not skip it, it is a candidate unless its short name is empty, and when the loop
  reaches it the first thing that happens is the generate-content request for it.
\<close>

theorem no_methods_field_is_capable:
  assumes "m \<in> set models" and "string_name m = Some n"
    and "get_prop ''supportedGenerationMethods'' m = None"
  shows "modelSupportsGenerateContent m \<and>
     shortModelName n \<in> generateCapable_of models \<and>
     \<not> skipped (generateCapable_of models) (shortModelName n) \<and>
     (shortModelName n \<noteq> [] \<longrightarrow> shortModelName n \<in> set (candidates_of (available_of models))) \<and>
     (\<exists>evs. snd (snd (try_candidates fetch JSON_parse version apiKey prompt (generateCapable_of models)
                (shortModelName n # rest) (w, log))) =
        log @ Fetch (generate_url version (shortModelName n)) (generate_init apiKey prompt) 30000 # evs)"
proof -
  have ms: "modelSupportsGenerateContent m"
    using assms(3) by (simp add: modelSupportsGenerateContent_def)
  show ?thesis using ms capable_is_attempted [OF assms(1,2) ms] by simp
qed

text \<open>The first entry of the catalog of the examples has no capability list.\<close>

theorem no_methods_field_is_capable_witness:
  "modelSupportsGenerateContent (JObj [(''name'', JStr ''models/gemini-pro-vision'')]) \<and>
   ''gemini-pro-vision'' \<in> generateCapable_of demo_models \<and>
   \<not> skipped (generateCapable_of demo_models) ''gemini-pro-vision'' \<and>
   ''gemini-pro-vision'' \<in> set (candidates_of (available_of demo_models)) \<and>
   (\<exists>evs. snd (snd (try_candidates (table_fetch []) (\<lambda>raw. Inl ''Unexpected end of JSON input'') V1beta ''key'' ''hello''
         (generateCapable_of demo_models) [''gemini-pro-vision'', ''gemini-exp''] ((), []))) =
      [] @ Fetch (generate_url V1beta ''gemini-pro-vision'') (generate_init ''key'' ''hello'') 30000 # evs)"
proof -
  have a: "JObj [(''name'', JStr ''models/gemini-pro-vision'')] \<in> set demo_models"
    by (simp add: demo_models_def)
  have b: "string_name (JObj [(''name'', JStr ''models/gemini-pro-vision'')]) = Some ''models/gemini-pro-vision''"
    by (simp add: string_name_def)
  have c: "get_prop ''supportedGenerationMethods'' (JObj [(''name'', JStr ''models/gemini-pro-vision'')]) = None"
    by simp
  have d: "shortModelName ''models/gemini-pro-vision'' = ''gemini-pro-vision''"
    by (simp add: shortModelName_def)
  show ?thesis
    using no_methods_field_is_capable [OF a b c, of "table_fetch []" "\<lambda>raw. Inl ''Unexpected end of JSON input''"
        V1beta "''key''" "''hello''" "[''gemini-exp'']" "()" "[]"]
    unfolding d by simp
qed

text \<open>
  Claim C10. A catalog entry with a string name whose \<^verbatim>\<open>supportedGenerationMethods\<close>
  is the empty array counts as able to generate: its short name is in \<^verbatim>\<open>generateCapable\<close>, the capability
  filter does not skip it, it is a candidate unless its short name is empty, and when the loop
  reaches it the first thing that happens is the generate-content request for it.
\<close>

theorem empty_methods_is_capable:
  assumes "m \<in> set models" and "string_name m = Some n"
    and "get_prop ''supportedGenerationMethods'' m = Some (JArr [])"
  shows "modelSupportsGenerateContent m \<and>
     shortModelName n \<in> generateCapable_of models \<and>
     \<not> skipped (generateCapable_of models) (shortModelName n) \<and>
     (shortModelName n \<noteq> [] \<longrightarrow> shortModelName n \<in> set (candidates_of (available_of models))) \<and>
     (\<exists>evs. snd (snd (try_candidates fetch JSON_parse version apiKey prompt (generateCapable_of models)
                (shortModelName n # rest) (w, log))) =
        log @ Fetch (generate_url version (shortModelName n)) (generate_init apiKey prompt) 30000 # evs)"
proof -
  have ms: "modelSupportsGenerateContent m"
    using assms(3) by (simp add: modelSupportsGenerateContent_def)
  show ?thesis using ms capable_is_attempted [OF assms(1,2) ms] by simp
qed

text \<open>The last entry of the catalog of the examples has an empty capability list.\<close>

theorem empty_methods_is_capable_witness:
  "modelSupportsGenerateContent (JObj [(''name'', JStr ''models/gemini-exp''), (''supportedGenerationMethods'', JArr [])]) \<and>
   ''gemini-exp'' \<in> generateCapable_of demo_models \<and>
   \<not> skipped (generateCapable_of demo_models) ''gemini-exp'' \<and>
   ''gemini-exp'' \<in> set (candidates_of (available_of demo_models)) \<and>
   (\<exists>evs. snd (snd (try_candidates (table_fetch []) (\<lambda>raw. Inl ''Unexpected end of JSON input'') V1beta ''key'' ''hello''
         (generateCapable_of demo_models) [''gemini-exp'', ''gemini-pro-vision''] ((), []))) =
      [] @ Fetch (generate_url V1beta ''gemini-exp'') (generate_init ''key'' ''hello'') 30000 # evs)"
proof -
  have a: "JObj [(''name'', JStr ''models/gemini-exp''), (''supportedGenerationMethods'', JArr [])] \<in> set demo_models"
    by (simp add: demo_models_def)
  have b: "string_name (JObj [(''name'', JStr ''models/gemini-exp''), (''supportedGenerationMethods'', JArr [])]) = Some ''models/gemini-exp''"
    by (simp add: string_name_def)
  have c: "get_prop ''supportedGenerationMethods''
      (JObj [(''name'', JStr ''models/gemini-exp''), (''supportedGenerationMethods'', JArr [])]) = Some (JArr [])"
    by simp
  have d: "shortModelName ''models/gemini-exp'' = ''gemini-exp''"
    by (simp add: shortModelName_def)
  show ?thesis
    using empty_methods_is_capable [OF a b c, of "table_fetch []" "\<lambda>raw. Inl ''Unexpected end of JSON input''"
        V1beta "''key''" "''hello''" "[''gemini-pro-vision'']" "()" "[]"]
    unfolding d by simp
qed

section \<open>The budgets of the two call sites\<close>

text \<open>
  Claim C7. \<^verbatim>\<open>generateContent\<close> runs the retrier with a budget of 3 retries and a timeout of
  30000 ms: whatever the network does, it issues the attempts \<open>0..k\<close> for some \<open>k \<le> 3\<close>, each
  with that timeout, where attempt \<open>k\<close> is the first that is not retryable, or attempt 3.
  \<^verbatim>\<open>listModels\<close> issues exactly one request, with a timeout of 15000 ms, whatever its
  outcome, and never sleeps.
\<close>

theorem call_site_budgets:
  "(\<exists>k. stops_at fetch (generate_url version model) (generate_init apiKey prompt) 30000 3 w k \<and>
        snd (generateContent fetch JSON_parse version model apiKey prompt (w, log)) =
          (nth_world fetch (generate_url version model) (generate_init apiKey prompt) 30000 w (Suc k),
           log @ retry_events fetch (generate_url version model) (generate_init apiKey prompt) 30000 w k) \<and>
        filter is_Fetch (retry_events fetch (generate_url version model) (generate_init apiKey prompt) 30000 w k) =
          replicate (Suc k) (Fetch (generate_url version model) (generate_init apiKey prompt) 30000)) \<and>
   snd (listModels fetch JSON_parse version apiKey (w, log)) =
     (snd (fetch (list_url version) (list_init apiKey) 15000 w),
      log @ [Fetch (list_url version) (list_init apiKey) 15000])"
proof -
  obtain k where k: "stops_at fetch (generate_url version model) (generate_init apiKey prompt) 30000 3 w k"
    and g: "generateContent fetch JSON_parse version model apiKey prompt (w, log) =
       (generated JSON_parse version model
          (outcome_of (nth_outcome fetch (generate_url version model) (generate_init apiKey prompt) 30000 w k)),
        (nth_world fetch (generate_url version model) (generate_init apiKey prompt) 30000 w (Suc k),
         log @ retry_events fetch (generate_url version model) (generate_init apiKey prompt) 30000 w k))"
    using generateContent_events [of fetch version model apiKey prompt w JSON_parse log] by blast
  show ?thesis
    using k g fetches_of_retry_events listModels_state by (intro conjI exI [of _ k]) simp_all
qed

text \<open>Against a server that always answers 503, a generation makes four requests, with sleeps
  of 800, 1600 and 3200 milliseconds, and a listing makes one.\<close>

theorem call_site_budgets_witness:
  "snd (generateContent (table_fetch busy_table) (\<lambda>raw. Inl ''Unexpected token'') V1 ''m'' ''key'' ''hi'' ((), [])) =
     ((), [Fetch (generate_url V1 ''m'') (generate_init ''key'' ''hi'') 30000,
           Warn ''[WARN] Retryable status 503. wait=800ms'', Sleep 800,
           Fetch (generate_url V1 ''m'') (generate_init ''key'' ''hi'') 30000,
           Warn ''[WARN] Retryable status 503. wait=1600ms'', Sleep 1600,
           Fetch (generate_url V1 ''m'') (generate_init ''key'' ''hi'') 30000,
           Warn ''[WARN] Retryable status 503. wait=3200ms'', Sleep 3200,
           Fetch (generate_url V1 ''m'') (generate_init ''key'' ''hi'') 30000]) \<and>
   snd (listModels (table_fetch busy_table) (\<lambda>raw. Inl ''Unexpected token'') V1 ''key'' ((), [])) =
     ((), [Fetch (list_url V1) (list_init ''key'') 15000])"
proof -
  let ?f = "table_fetch busy_table :: unit fetch"
  let ?u = "generate_url V1 ''m''"
  let ?i = "generate_init ''key'' ''hi''"
  have out: "\<And>n. nth_outcome ?f ?u ?i 30000 () n = Response 503 ''busy''"
    by (simp add: table_outcome busy_table_def)
  have s3: "stops_at ?f ?u ?i 30000 3 () 3"
    by (simp add: stops_at_def out retryable_def isRetryableStatus_def)
  obtain k where k: "stops_at ?f ?u ?i 30000 3 () k"
    and g: "snd (generateContent ?f (\<lambda>raw. Inl ''Unexpected token'') V1 ''m'' ''key'' ''hi'' ((), [])) =
          (nth_world ?f ?u ?i 30000 () (Suc k), [] @ retry_events ?f ?u ?i 30000 () k)"
    and l: "snd (listModels ?f (\<lambda>raw. Inl ''Unexpected token'') V1 ''key'' ((), [])) =
     (snd (?f (list_url V1) (list_init ''key'') 15000 ()), [] @ [Fetch (list_url V1) (list_init ''key'') 15000])"
    using call_site_budgets [of ?f V1 "''m''" "''key''" "''hi''" "()" "\<lambda>raw. Inl ''Unexpected token''" "[]"]
    by blast
  have k3: "k = 3" using stops_at_unique [OF k s3] .
  have upt: "[1..<Suc 3] = [1, 2, 3]" by code_simp
  have ev: "retry_events ?f ?u ?i 30000 () 3 =
     [Fetch ?u ?i 30000, Warn ''[WARN] Retryable status 503. wait=800ms'', Sleep 800,
      Fetch ?u ?i 30000, Warn ''[WARN] Retryable status 503. wait=1600ms'', Sleep 1600,
      Fetch ?u ?i 30000, Warn ''[WARN] Retryable status 503. wait=3200ms'', Sleep 3200,
      Fetch ?u ?i 30000]"
    unfolding retry_events_def upt
    by (simp add: out retry_warning_def show_nat.simps digit_char_def)
  show ?thesis
    using g l unfolding k3 ev by simp
qed

section \<open>Failures of the catalog listing\<close>

text \<open>
  Claim C5. When the listing request of a version is rejected (network error, timeout) or
  answered with a status outside 200..299, or its body is not JSON, \<^verbatim>\<open>listModels\<close> throws;
  the selection then logs one warning and goes on with the remaining versions from there. For
  the primary version this means that the next request is the listing of the secondary one; for
  the last version it means that the selection ends with the error of exhaustion, not with the
  error of the listing.
\<close>

theorem listing_failure_not_fatal:
  assumes "fetch (list_url version) (list_init apiKey) 15000 w = (a, w')"
    and "listed JSON_parse version a = Inl e"
  shows "try_versions fetch JSON_parse apiKey prompt (version # rest) (w, log) =
       try_versions fetch JSON_parse apiKey prompt rest
         (w', log @ [Fetch (list_url version) (list_init apiKey) 15000,
                     Warn (''[WARN] listModels failed ('' @ version_str version @ ''): '' @ e)]) \<and>
     (version = V1beta \<longrightarrow> (\<exists>evs.
        generateWithAutoPick fetch JSON_parse apiKey prompt (w, log) =
          try_versions fetch JSON_parse apiKey prompt [V1]
            (w', log @ [Fetch (list_url V1beta) (list_init apiKey) 15000,
                     Warn (''[WARN] listModels failed (v1beta): '' @ e)]) \<and>
        snd (snd (generateWithAutoPick fetch JSON_parse apiKey prompt (w, log))) =
          log @ [Fetch (list_url V1beta) (list_init apiKey) 15000,
                 Warn (''[WARN] listModels failed (v1beta): '' @ e),
                 Fetch (list_url V1) (list_init apiKey) 15000] @ evs)) \<and>
     (rest = [] \<longrightarrow>
        fst (try_versions fetch JSON_parse apiKey prompt (version # rest) (w, log)) =
          Inl ''No working Gemini model found (checked v1beta/v1).'') \<and>
     listed JSON_parse version (Rejected e') = Inl e' \<and>
     (\<not> resp_ok status \<longrightarrow> listed JSON_parse version (Response status raw) =
        Inl (''ListModels failed ('' @ version_str version @ ''): '' @ show_nat status @ '' '' @ raw))"
proof -
  have 1: "try_versions fetch JSON_parse apiKey prompt (version # rest) (w, log) =
     try_versions fetch JSON_parse apiKey prompt rest
       (w', log @ [Fetch (list_url version) (list_init apiKey) 15000,
                   Warn (''[WARN] listModels failed ('' @ version_str version @ ''): '' @ e)])" for rest
    using assms by (rule try_versions_listing_error)
  have 2: "\<exists>evs.
      generateWithAutoPick fetch JSON_parse apiKey prompt (w, log) =
        try_versions fetch JSON_parse apiKey prompt [V1]
          (w', log @ [Fetch (list_url V1beta) (list_init apiKey) 15000,
                   Warn (''[WARN] listModels failed (v1beta): '' @ e)]) \<and>
      snd (snd (generateWithAutoPick fetch JSON_parse apiKey prompt (w, log))) =
        log @ [Fetch (list_url V1beta) (list_init apiKey) 15000,
               Warn (''[WARN] listModels failed (v1beta): '' @ e),
               Fetch (list_url V1) (list_init apiKey) 15000] @ evs" if "version = V1beta"
  proof -
    obtain evs where "snd (snd (try_versions fetch JSON_parse apiKey prompt [V1]
          (w', log @ [Fetch (list_url V1beta) (list_init apiKey) 15000,
                   Warn (''[WARN] listModels failed (v1beta): '' @ e)]))) =
         (log @ [Fetch (list_url V1beta) (list_init apiKey) 15000,
                   Warn (''[WARN] listModels failed (v1beta): '' @ e)]) @
         Fetch (list_url V1) (list_init apiKey) 15000 # evs"
      using try_versions_first_fetch [of fetch JSON_parse apiKey prompt V1 "[]" w'
          "log @ [Fetch (list_url V1beta) (list_init apiKey) 15000,
                   Warn (''[WARN] listModels failed (v1beta): '' @ e)]"] by blast
    then show ?thesis
      using 1 [of "[V1]"] that
      unfolding generateWithAutoPick_def by (intro exI [of _ evs]) simp
  qed
  have 3: "fst (try_versions fetch JSON_parse apiKey prompt (version # rest) (w, log)) =
       Inl ''No working Gemini model found (checked v1beta/v1).''" if "rest = []"
    unfolding 1 using that by simp
  have 4: "listed JSON_parse version (Rejected e') = Inl e'"
    by (simp add: listed_def)
  have 5: "listed JSON_parse version (Response status raw) =
       Inl (''ListModels failed ('' @ version_str version @ ''): '' @ show_nat status @ '' '' @ raw)"
    if "\<not> resp_ok status"
    using that by (simp add: listed_def)
  show ?thesis using 1 2 3 4 5 by blast
qed

text \<open>A run in which the listing of the primary version is rejected: the secondary version is
  listed and its preferred model answers.\<close>

theorem listing_failure_not_fatal_witness:
  "generateWithAutoPick (table_fetch secondary_only) demo_parse ''key'' ''hi'' ((), []) =
     (Inr \<lparr>picked_version = V1, picked_model = ''gemini-2.0-flash-lite'', picked_text = ''Hello''\<rparr>,
      ((), [Fetch (list_url V1beta) (list_init ''key'') 15000,
            Warn ''[WARN] listModels failed (v1beta): fetch failed'',
            Fetch (list_url V1) (list_init ''key'') 15000,
            Fetch (generate_url V1 ''gemini-2.0-flash-lite'') (generate_init ''key'' ''hi'') 30000]))"
proof -
  have f: "table_fetch secondary_only (list_url V1beta) (list_init ''key'') 15000 () =
      (Rejected ''fetch failed'', ())"
    by (simp add: table_fetch_def secondary_only_def list_url_def generate_url_def)
  have l: "listed demo_parse V1beta (Rejected ''fetch failed'') = Inl ''fetch failed''"
    by (simp add: listed_def)
  have g: "generateWithAutoPick (table_fetch secondary_only) demo_parse ''key'' ''hi'' ((), []) =
      try_versions (table_fetch secondary_only) demo_parse ''key'' ''hi'' [V1]
        ((), [] @ [Fetch (list_url V1beta) (list_init ''key'') 15000,
                   Warn (''[WARN] listModels failed (v1beta): '' @ ''fetch failed'')])"
    using listing_failure_not_fatal [of "table_fetch secondary_only", OF f l, of "''hi''" "[V1]" "[]"]
    by blast
  have m1: "(case map_of secondary_only (list_url V1) of Some a \<Rightarrow> a | None \<Rightarrow> Rejected ''fetch failed'')
      = Response 200 catalog_body"
    by (simp add: secondary_only_def)
  have m2: "(case map_of secondary_only (generate_url V1 ''gemini-2.0-flash-lite'') of Some a \<Rightarrow> a
       | None \<Rightarrow> Rejected ''fetch failed'') = Response 200 answer_body"
    by (simp add: secondary_only_def list_url_def generate_url_def)
  have nr: "\<not> retryable (Response 200 answer_body)"
    by (simp add: retryable_def isRetryableStatus_def)
  have ns: "\<not> skipped (generateCapable_of demo_models) ''gemini-2.0-flash-lite''"
    by (simp add: demo_capable skipped_def)
  show ?thesis
    unfolding g
    by (simp add: listModels_table m1 demo_listed demo_candidates try_candidates_try [OF ns]
          generateContent_table [OF m2 nr] outcome_of_def demo_answer)
qed

text \<open>
  Claim C9. When the listing fails for both versions, for whatever reason (a rejected request, a
  status outside 200..299 such as 401, a body that is not JSON), the selection makes the two
  listing requests, logs the two failures, and throws
  \<open>No working Gemini model found (checked v1beta/v1).\<close>; the error of the listing is in the
  log only.
\<close>

theorem listing_errors_end_in_exhaustion:
  assumes "fetch (list_url V1beta) (list_init apiKey) 15000 w = (a1, w1)"
    and "listed JSON_parse V1beta a1 = Inl e1"
    and "fetch (list_url V1) (list_init apiKey) 15000 w1 = (a2, w2)"
    and "listed JSON_parse V1 a2 = Inl e2"
  shows "generateWithAutoPick fetch JSON_parse apiKey prompt (w, log) =
       (Inl ''No working Gemini model found (checked v1beta/v1).'',
        (w2, log @ [Fetch (list_url V1beta) (list_init apiKey) 15000,
                    Warn (''[WARN] listModels failed (v1beta): '' @ e1),
                    Fetch (list_url V1) (list_init apiKey) 15000,
                    Warn (''[WARN] listModels failed (v1): '' @ e2)])) \<and>
     (\<not> resp_ok status \<longrightarrow> listed JSON_parse version (Response status raw) =
        Inl (''ListModels failed ('' @ version_str version @ ''): '' @ show_nat status @ '' '' @ raw)) \<and>
     listed JSON_parse version (Response 401 raw) =
        Inl (''ListModels failed ('' @ version_str version @ ''): 401 '' @ raw)"
proof -
  have "try_versions fetch JSON_parse apiKey prompt [V1beta, V1] (w, log) =
      try_versions fetch JSON_parse apiKey prompt [V1]
        (w1, log @ [Fetch (list_url V1beta) (list_init apiKey) 15000,
                    Warn (''[WARN] listModels failed ('' @ version_str V1beta @ ''): '' @ e1)])"
    using assms(1,2) by (rule try_versions_listing_error)
  also have "\<dots> = try_versions fetch JSON_parse apiKey prompt []
        (w2, (log @ [Fetch (list_url V1beta) (list_init apiKey) 15000,
                    Warn (''[WARN] listModels failed ('' @ version_str V1beta @ ''): '' @ e1)]) @
             [Fetch (list_url V1) (list_init apiKey) 15000,
              Warn (''[WARN] listModels failed ('' @ version_str V1 @ ''): '' @ e2)])"
    using assms(3,4) by (rule try_versions_listing_error)
  finally have 1: "generateWithAutoPick fetch JSON_parse apiKey prompt (w, log) =
       (Inl ''No working Gemini model found (checked v1beta/v1).'',
        (w2, log @ [Fetch (list_url V1beta) (list_init apiKey) 15000,
                    Warn (''[WARN] listModels failed (v1beta): '' @ e1),
                    Fetch (list_url V1) (list_init apiKey) 15000,
                    Warn (''[WARN] listModels failed (v1): '' @ e2)]))"
    by (simp add: generateWithAutoPick_def)
  have 2: "\<not> resp_ok status \<longrightarrow> listed JSON_parse version (Response status raw) =
        Inl (''ListModels failed ('' @ version_str version @ ''): '' @ show_nat status @ '' '' @ raw)"
    by (simp add: listed_def)
  have 3: "listed JSON_parse version (Response 401 raw) =
        Inl (''ListModels failed ('' @ version_str version @ ''): 401 '' @ raw)"
    by (simp add: listed_def resp_ok_def show_nat.simps digit_char_def)
  show ?thesis using 1 2 3 by blast
qed

text \<open>A run in which both listings are answered with 401.\<close>

theorem listing_errors_end_in_exhaustion_witness:
  "generateWithAutoPick (table_fetch denied_table) demo_parse ''key'' ''hi'' ((), []) =
     (Inl ''No working Gemini model found (checked v1beta/v1).'',
      ((), [Fetch (list_url V1beta) (list_init ''key'') 15000,
            Warn ''[WARN] listModels failed (v1beta): ListModels failed (v1beta): 401 denied'',
            Fetch (list_url V1) (list_init ''key'') 15000,
            Warn ''[WARN] listModels failed (v1): ListModels failed (v1): 401 denied'']))"
proof -
  have f1: "table_fetch denied_table (list_url V1beta) (list_init ''key'') 15000 () =
      (Response 401 ''denied'', ())"
    by (simp add: table_fetch_def denied_table_def)
  have f2: "table_fetch denied_table (list_url V1) (list_init ''key'') 15000 () =
      (Response 401 ''denied'', ())"
    by (simp add: table_fetch_def denied_table_def list_url_def)
  have l1: "listed demo_parse V1beta (Response 401 ''denied'') = Inl ''ListModels failed (v1beta): 401 denied''"
    by (simp add: listed_def resp_ok_def show_nat.simps digit_char_def)
  have l2: "listed demo_parse V1 (Response 401 ''denied'') = Inl ''ListModels failed (v1): 401 denied''"
    by (simp add: listed_def resp_ok_def show_nat.simps digit_char_def)
  show ?thesis
    using listing_errors_end_in_exhaustion [of "table_fetch denied_table", OF f1 l1 f2 l2, of "''hi''" "[]"]
    by simp
qed

section \<open>Classification of a failed attempt\<close>

text \<open>
  Claim C2, as amended. A failed attempt is classified by the text of its error message alone:
  the loop goes on to the next candidate when the message contains one of the four markers,
  and throws, which ends the selection, when it contains none. The message of a response with a
  status outside 200..299 is made of the version, the model name, the status and the body; so a
  404 always goes on to the next candidate, and so does any status when the body or the model
  name contains a marker, while a status below 1000 other than 404, such as 401 or 403, throws
  when neither the body nor the model name contains a marker. A throw out of the loop over the
  candidates is the result of the selection: no further candidate or version is tried.
\<close>

theorem failure_classified_by_message:
  assumes "\<not> skipped gc model"
    and "stops_at fetch (generate_url version model) (generate_init apiKey prompt) 30000 3 w k"
    and "nth_outcome fetch (generate_url version model) (generate_init apiKey prompt) 30000 w k
           = Response status raw"
    and "\<not> resp_ok status"
    and "st1 = (nth_world fetch (generate_url version model) (generate_init apiKey prompt) 30000 w (Suc k),
           log @ retry_events fetch (generate_url version model) (generate_init apiKey prompt) 30000 w k @
           [Warn (''[WARN] generateContent failed: '' @ failed_msg version model status raw)])"
  shows "(status = 404 \<or> isGeminiNotFoundOrUnsupported raw \<or> isGeminiNotFoundOrUnsupported model \<longrightarrow>
        try_candidates fetch JSON_parse version apiKey prompt gc (model # rest) (w, log) =
          try_candidates fetch JSON_parse version apiKey prompt gc rest st1) \<and>
     (status < 1000 \<and> status \<noteq> 404 \<and> \<not> isGeminiNotFoundOrUnsupported raw \<and>
        \<not> isGeminiNotFoundOrUnsupported model \<longrightarrow>
        try_candidates fetch JSON_parse version apiKey prompt gc (model # rest) (w, log) =
          (Throw (failed_msg version model status raw), st1)) \<and>
     (\<forall>msg st st'. generateContent fetch JSON_parse version model apiKey prompt st = (Inl msg, st') \<longrightarrow>
        try_candidates fetch JSON_parse version apiKey prompt gc (model # rest) st =
          (if isGeminiNotFoundOrUnsupported msg then
             try_candidates fetch JSON_parse version apiKey prompt gc rest
               (console_warn (''[WARN] generateContent failed: '' @ msg) st')
           else (Throw msg, console_warn (''[WARN] generateContent failed: '' @ msg) st'))) \<and>
     (\<forall>models st0 st2 st3 e vs.
        listModels fetch JSON_parse version apiKey st0 = (Inr models, st2) \<and>
        try_candidates fetch JSON_parse version apiKey prompt (generateCapable_of models)
          (candidates_of (available_of models)) st2 = (Throw e, st3) \<longrightarrow>
        try_versions fetch JSON_parse apiKey prompt (version # vs) st0 = (Inl e, st3))"
proof -
  have g: "generateContent fetch JSON_parse version model apiKey prompt (w, log) =
      (Inl (failed_msg version model status raw),
       (nth_world fetch (generate_url version model) (generate_init apiKey prompt) 30000 w (Suc k),
        log @ retry_events fetch (generate_url version model) (generate_init apiKey prompt) 30000 w k))"
    using generateContent_stops_at [OF assms(2), of JSON_parse log] assms(3,4)
    by (simp add: generated_not_ok)
  have step: "try_candidates fetch JSON_parse version apiKey prompt gc (model # rest) (w, log) =
     (if isGeminiNotFoundOrUnsupported (failed_msg version model status raw) then
        try_candidates fetch JSON_parse version apiKey prompt gc rest st1
      else (Throw (failed_msg version model status raw), st1))"
    using try_candidates_failure [OF assms(1) g, of rest] assms(5) by simp
  have a: "status = 404 \<or> isGeminiNotFoundOrUnsupported raw \<or> isGeminiNotFoundOrUnsupported model \<Longrightarrow>
      isGeminiNotFoundOrUnsupported (failed_msg version model status raw)"
    using show_nat_404 by (auto simp: isGemini_failed_msg)
  have b: "status < 1000 \<Longrightarrow> status \<noteq> 404 \<Longrightarrow> \<not> isGeminiNotFoundOrUnsupported raw \<Longrightarrow>
      \<not> isGeminiNotFoundOrUnsupported model \<Longrightarrow>
      \<not> isGeminiNotFoundOrUnsupported (failed_msg version model status raw)"
    by (simp add: isGemini_failed_msg prefix_404_show_nat)
  have c: "\<forall>msg st st'. generateContent fetch JSON_parse version model apiKey prompt st = (Inl msg, st') \<longrightarrow>
        try_candidates fetch JSON_parse version apiKey prompt gc (model # rest) st =
          (if isGeminiNotFoundOrUnsupported msg then
             try_candidates fetch JSON_parse version apiKey prompt gc rest
               (console_warn (''[WARN] generateContent failed: '' @ msg) st')
           else (Throw msg, console_warn (''[WARN] generateContent failed: '' @ msg) st'))"
    using try_candidates_failure [OF assms(1)] by blast
  have d: "\<forall>models st0 st2 st3 e vs.
        listModels fetch JSON_parse version apiKey st0 = (Inr models, st2) \<and>
        try_candidates fetch JSON_parse version apiKey prompt (generateCapable_of models)
          (candidates_of (available_of models)) st2 = (Throw e, st3) \<longrightarrow>
        try_versions fetch JSON_parse apiKey prompt (version # vs) st0 = (Inl e, st3)"
    using try_versions_Throw by blast
  show ?thesis
    using step a b c d by simp
qed

text \<open>A run on the catalog of the examples: the preferred model answers 404 and the loop goes
  on; the next model answers 401 and the selection ends with that error, without a request for
  the last candidate and without listing the secondary version.\<close>

theorem failure_classified_by_message_witness:
  "generateWithAutoPick (table_fetch gone_then_denied) demo_parse ''key'' ''hi'' ((), []) =
     (Inl (failed_msg V1beta ''gemini-pro-vision'' 401 ''denied''),
      ((), [Fetch (list_url V1beta) (list_init ''key'') 15000,
            Fetch (generate_url V1beta ''gemini-2.0-flash-lite'') (generate_init ''key'' ''hi'') 30000,
            Warn (''[WARN] generateContent failed: '' @ failed_msg V1beta ''gemini-2.0-flash-lite'' 404 ''gone''),
            Fetch (generate_url V1beta ''gemini-pro-vision'') (generate_init ''key'' ''hi'') 30000,
            Warn (''[WARN] generateContent failed: '' @ failed_msg V1beta ''gemini-pro-vision'' 401 ''denied'')]))"
proof -
  let ?f = "table_fetch gone_then_denied :: unit fetch"
  let ?l0 = "[Fetch (list_url V1beta) (list_init ''key'') 15000]"
  let ?u1 = "generate_url V1beta ''gemini-2.0-flash-lite''"
  let ?u2 = "generate_url V1beta ''gemini-pro-vision''"
  let ?i = "generate_init ''key'' ''hi''"
  let ?gc = "generateCapable_of demo_models"
  let ?l1 = "?l0 @ [Fetch ?u1 ?i 30000] @
      [Warn (''[WARN] generateContent failed: '' @ failed_msg V1beta ''gemini-2.0-flash-lite'' 404 ''gone'')]"
  let ?l2 = "?l1 @ [Fetch ?u2 ?i 30000] @
      [Warn (''[WARN] generateContent failed: '' @ failed_msg V1beta ''gemini-pro-vision'' 401 ''denied'')]"
  have m0: "(case map_of gone_then_denied (list_url V1beta) of Some a \<Rightarrow> a | None \<Rightarrow> Rejected ''fetch failed'')
      = Response 200 catalog_body"
    by (simp add: gone_then_denied_def)
  have m1: "(case map_of gone_then_denied ?u1 of Some a \<Rightarrow> a | None \<Rightarrow> Rejected ''fetch failed'')
      = Response 404 ''gone''"
    by (simp add: gone_then_denied_def list_url_def generate_url_def)
  have m2: "(case map_of gone_then_denied ?u2 of Some a \<Rightarrow> a | None \<Rightarrow> Rejected ''fetch failed'')
      = Response 401 ''denied''"
    by (simp add: gone_then_denied_def list_url_def generate_url_def)
  have s1: "stops_at ?f ?u1 ?i 30000 3 () 0"
    using m1 by (rule stops_at_table_0) (simp add: retryable_def isRetryableStatus_def)
  have s2: "stops_at ?f ?u2 ?i 30000 3 () 0"
    using m2 by (rule stops_at_table_0) (simp add: retryable_def isRetryableStatus_def)
  have o1: "nth_outcome ?f ?u1 ?i 30000 () 0 = Response 404 ''gone''"
    using m1 by (simp add: table_outcome)
  have o2: "nth_outcome ?f ?u2 ?i 30000 () 0 = Response 401 ''denied''"
    using m2 by (simp add: table_outcome)
  have c1: "try_candidates ?f demo_parse V1beta ''key'' ''hi'' ?gc
        (''gemini-2.0-flash-lite'' # [''gemini-pro-vision'', ''embedding-001'', ''gemini-exp'']) ((), ?l0) =
      try_candidates ?f demo_parse V1beta ''key'' ''hi'' ?gc
        [''gemini-pro-vision'', ''embedding-001'', ''gemini-exp''] ((), ?l1)"
    using failure_classified_by_message [of ?gc "''gemini-2.0-flash-lite''" ?f V1beta "''key''" "''hi''" "()" 0
        404 "''gone''" "((), ?l1)" ?l0 demo_parse "[''gemini-pro-vision'', ''embedding-001'', ''gemini-exp'']",
        OF demo_skipped(1) s1 o1]
    by (simp add: resp_ok_def retry_events_0)
  have c2: "try_candidates ?f demo_parse V1beta ''key'' ''hi'' ?gc
        (''gemini-pro-vision'' # [''embedding-001'', ''gemini-exp'']) ((), ?l1) =
      (Throw (failed_msg V1beta ''gemini-pro-vision'' 401 ''denied''), ((), ?l2))"
    using failure_classified_by_message [of ?gc "''gemini-pro-vision''" ?f V1beta "''key''" "''hi''" "()" 0
        401 "''denied''" "((), ?l2)" ?l1 demo_parse "[''embedding-001'', ''gemini-exp'']",
        OF demo_skipped(2) s2 o2]
      no_marker_demo
    by (simp add: resp_ok_def retry_events_0)
  have lm: "listModels ?f demo_parse V1beta ''key'' ((), []) = (Inr demo_models, ((), ?l0))"
    by (simp add: listModels_table m0 demo_listed)
  have tc: "try_candidates ?f demo_parse V1beta ''key'' ''hi'' ?gc (candidates_of (available_of demo_models))
       ((), ?l0) = (Throw (failed_msg V1beta ''gemini-pro-vision'' 401 ''denied''), ((), ?l2))"
    unfolding demo_candidates c1 c2 ..
  have "try_versions ?f demo_parse ''key'' ''hi'' (V1beta # [V1]) ((), []) =
      (Inl (failed_msg V1beta ''gemini-pro-vision'' 401 ''denied''), ((), ?l2))"
    using failure_classified_by_message [of ?gc "''gemini-pro-vision''" ?f V1beta "''key''" "''hi''" "()" 0
        401 "''denied''" "((), ?l2)" ?l1 demo_parse "[''embedding-001'', ''gemini-exp'']",
        OF demo_skipped(2) s2 o2] lm tc
    by (simp add: resp_ok_def retry_events_0)
  then show ?thesis by (simp add: generateWithAutoPick_def)
qed

text \<open>Claim C2 as first stated fails on the following run: the preferred model answers 403, the
  body of the answer contains \<open>: 404\<close>, and the selection does not end there: it requests the
  next candidate and returns its answer.\<close>

theorem forbidden_with_404_in_body_continues:
  "generateWithAutoPick (table_fetch forbidden_table) demo_parse ''key'' ''hi'' ((), []) =
     (Inr \<lparr>picked_version = V1beta, picked_model = ''gemini-pro-vision'', picked_text = ''Hello''\<rparr>,
      ((), [Fetch (list_url V1beta) (list_init ''key'') 15000,
            Fetch (generate_url V1beta ''gemini-2.0-flash-lite'') (generate_init ''key'' ''hi'') 30000,
            Warn (''[WARN] generateContent failed: '' @
                    failed_msg V1beta ''gemini-2.0-flash-lite'' 403 forbidden_body),
            Fetch (generate_url V1beta ''gemini-pro-vision'') (generate_init ''key'' ''hi'') 30000]))"
proof -
  let ?u1 = "generate_url V1beta ''gemini-2.0-flash-lite''"
  let ?u2 = "generate_url V1beta ''gemini-pro-vision''"
  have m0: "(case map_of forbidden_table (list_url V1beta) of Some a \<Rightarrow> a | None \<Rightarrow> Rejected ''fetch failed'')
      = Response 200 catalog_body"
    by (simp add: forbidden_table_def)
  have m1: "(case map_of forbidden_table ?u1 of Some a \<Rightarrow> a | None \<Rightarrow> Rejected ''fetch failed'')
      = Response 403 forbidden_body"
    by (simp add: forbidden_table_def list_url_def generate_url_def)
  have m2: "(case map_of forbidden_table ?u2 of Some a \<Rightarrow> a | None \<Rightarrow> Rejected ''fetch failed'')
      = Response 200 answer_body"
    by (simp add: forbidden_table_def list_url_def generate_url_def)
  have n1: "\<not> retryable (Response 403 forbidden_body)" and n2: "\<not> retryable (Response 200 answer_body)"
    by (simp_all add: retryable_def isRetryableStatus_def)
  have mk: "isGeminiNotFoundOrUnsupported forbidden_body"
    by (simp add: isGeminiNotFoundOrUnsupported_def str_includes_def forbidden_body_def sublist_Cons_right)
  then have cont: "isGeminiNotFoundOrUnsupported (failed_msg V1beta ''gemini-2.0-flash-lite'' 403 forbidden_body)"
    by (simp add: isGemini_failed_msg)
  have g1: "generated demo_parse V1beta ''gemini-2.0-flash-lite'' (outcome_of (Response 403 forbidden_body))
      = Inl (failed_msg V1beta ''gemini-2.0-flash-lite'' 403 forbidden_body)"
    by (simp add: generated_not_ok resp_ok_def)
  have g2: "generated demo_parse V1beta ''gemini-pro-vision'' (outcome_of (Response 200 answer_body))
      = Inr ''Hello''"
    by (simp add: outcome_of_def demo_answer)
  show ?thesis
    by (simp add: generateWithAutoPick_def listModels_table m0 demo_listed demo_candidates
          try_candidates_try demo_skipped generateContent_table [OF m1 n1] generateContent_table [OF m2 n2]
          g1 g2 cont)
qed

section \<open>Answers without text\<close>

text \<open>
  Claim C1, as amended. A response with a status in 200..299 whose generated-text field is
  missing, not a string, empty or white space only is a failure: \<^verbatim>\<open>generateContent\<close> throws
  \<open>Gemini response is empty\<close>, and whatever \<^verbatim>\<open>generateContent\<close> returns is not blank. The
  selection then classifies this error like any other: since its message carries none of the
  mismatch markers unless the body or the model name does, the selection throws it and ends;
  it goes on to the next candidate only when the body or the model name contains a marker.
\<close>

theorem blank_answer_is_a_failure:
  assumes "\<not> skipped gc model"
    and "stops_at fetch (generate_url version model) (generate_init apiKey prompt) 30000 3 w k"
    and "nth_outcome fetch (generate_url version model) (generate_init apiKey prompt) 30000 w k
           = Response status raw"
    and "resp_ok status" and "JSON_parse raw = Inr data" and "no_text data"
    and "st1 = (nth_world fetch (generate_url version model) (generate_init apiKey prompt) 30000 w (Suc k),
           log @ retry_events fetch (generate_url version model) (generate_init apiKey prompt) 30000 w k)"
  shows "generateContent fetch JSON_parse version model apiKey prompt (w, log) =
       (Inl (empty_msg version model raw), st1) \<and>
     try_candidates fetch JSON_parse version apiKey prompt gc (model # rest) (w, log) =
       (if isGeminiNotFoundOrUnsupported raw \<or> isGeminiNotFoundOrUnsupported model then
          try_candidates fetch JSON_parse version apiKey prompt gc rest
            (console_warn (''[WARN] generateContent failed: '' @ empty_msg version model raw) st1)
        else (Throw (empty_msg version model raw),
              console_warn (''[WARN] generateContent failed: '' @ empty_msg version model raw) st1)) \<and>
     (\<forall>st answer st'. generateContent fetch JSON_parse version model apiKey prompt st = (Inr answer, st')
        \<longrightarrow> trim answer \<noteq> []) \<and>
     (\<forall>models st0 st2 st3 e vs.
        listModels fetch JSON_parse version apiKey st0 = (Inr models, st2) \<and>
        try_candidates fetch JSON_parse version apiKey prompt (generateCapable_of models)
          (candidates_of (available_of models)) st2 = (Throw e, st3) \<longrightarrow>
        try_versions fetch JSON_parse apiKey prompt (version # vs) st0 = (Inl e, st3))"
proof -
  have gn: "generated JSON_parse version model (outcome_of (Response status raw)) =
      Inl (empty_msg version model raw)"
    using assms(4,5,6) by (rule generated_no_text)
  have g: "generateContent fetch JSON_parse version model apiKey prompt (w, log) =
       (Inl (empty_msg version model raw), st1)"
    using generateContent_stops_at [OF assms(2), of JSON_parse log] assms(3,7) gn
    by simp
  have step: "try_candidates fetch JSON_parse version apiKey prompt gc (model # rest) (w, log) =
       (if isGeminiNotFoundOrUnsupported raw \<or> isGeminiNotFoundOrUnsupported model then
          try_candidates fetch JSON_parse version apiKey prompt gc rest
            (console_warn (''[WARN] generateContent failed: '' @ empty_msg version model raw) st1)
        else (Throw (empty_msg version model raw),
              console_warn (''[WARN] generateContent failed: '' @ empty_msg version model raw) st1))"
    using try_candidates_failure [OF assms(1) g, of rest] by (auto simp: isGemini_empty_msg)
  have nb: "\<forall>st answer st'. generateContent fetch JSON_parse version model apiKey prompt st = (Inr answer, st')
        \<longrightarrow> trim answer \<noteq> []"
    using generated_Inr_text by (auto simp: generateContent_eq)
  have d: "\<forall>models st0 st2 st3 e vs.
        listModels fetch JSON_parse version apiKey st0 = (Inr models, st2) \<and>
        try_candidates fetch JSON_parse version apiKey prompt (generateCapable_of models)
          (candidates_of (available_of models)) st2 = (Throw e, st3) \<longrightarrow>
        try_versions fetch JSON_parse apiKey prompt (version # vs) st0 = (Inl e, st3)"
    using try_versions_Throw by blast
  show ?thesis using g step nb d by simp
qed

text \<open>A run in which the preferred model answers 200 without candidates: the attempt fails and
  the loop throws.\<close>

theorem blank_answer_is_a_failure_witness:
  "generateContent (table_fetch blank_table) demo_parse V1beta ''gemini-2.0-flash-lite'' ''key'' ''hi'' ((), []) =
     (Inl (empty_msg V1beta ''gemini-2.0-flash-lite'' blank_body),
      ((), [Fetch (generate_url V1beta ''gemini-2.0-flash-lite'') (generate_init ''key'' ''hi'') 30000])) \<and>
   try_candidates (table_fetch blank_table) demo_parse V1beta ''key'' ''hi'' (generateCapable_of demo_models)
       [''gemini-2.0-flash-lite'', ''gemini-pro-vision''] ((), []) =
     (Throw (empty_msg V1beta ''gemini-2.0-flash-lite'' blank_body),
      ((), [Fetch (generate_url V1beta ''gemini-2.0-flash-lite'') (generate_init ''key'' ''hi'') 30000,
            Warn (''[WARN] generateContent failed: '' @ empty_msg V1beta ''gemini-2.0-flash-lite'' blank_body)]))"
proof -
  let ?f = "table_fetch blank_table :: unit fetch"
  let ?u1 = "generate_url V1beta ''gemini-2.0-flash-lite''"
  let ?i = "generate_init ''key'' ''hi''"
  have m1: "(case map_of blank_table ?u1 of Some a \<Rightarrow> a | None \<Rightarrow> Rejected ''fetch failed'')
      = Response 200 blank_body"
    by (simp add: blank_table_def list_url_def generate_url_def)
  have s1: "stops_at ?f ?u1 ?i 30000 3 () 0"
    using m1 by (rule stops_at_table_0) (simp add: retryable_def isRetryableStatus_def)
  have o1: "nth_outcome ?f ?u1 ?i 30000 () 0 = Response 200 blank_body"
    using m1 by (simp add: table_outcome)
  have ok: "resp_ok 200" by (simp add: resp_ok_def)
  have nt: "no_text (JObj [(''candidates'', JArr [])])"
    by (simp add: no_text_def response_text_def)
  show ?thesis
    using blank_answer_is_a_failure [of "generateCapable_of demo_models" "''gemini-2.0-flash-lite''" ?f V1beta
        "''key''" "''hi''" "()" 0 200 blank_body demo_parse "JObj [(''candidates'', JArr [])]"
        "((), [Fetch ?u1 ?i 30000])" "[]" "[''gemini-pro-vision'']",
        OF demo_skipped(1) s1 o1 ok demo_parse_blank nt]
      no_marker_blank no_marker_demo
    by (simp add: retry_events_0)
qed

text \<open>Claim C1 as first stated fails on the same server: the selection ends with the error of the
  empty answer after one generate request, although the next candidate would have answered.\<close>

theorem blank_answer_aborts_selection:
  "generateWithAutoPick (table_fetch blank_table) demo_parse ''key'' ''hi'' ((), []) =
     (Inl (empty_msg V1beta ''gemini-2.0-flash-lite'' blank_body),
      ((), [Fetch (list_url V1beta) (list_init ''key'') 15000,
            Fetch (generate_url V1beta ''gemini-2.0-flash-lite'') (generate_init ''key'' ''hi'') 30000,
            Warn (''[WARN] generateContent failed: '' @
                    empty_msg V1beta ''gemini-2.0-flash-lite'' blank_body)])) \<and>
   fst (generateContent (table_fetch blank_table) demo_parse V1beta ''gemini-pro-vision'' ''key'' ''hi''
          ((), [])) = Inr ''Hello''"
proof -
  let ?u1 = "generate_url V1beta ''gemini-2.0-flash-lite''"
  let ?u2 = "generate_url V1beta ''gemini-pro-vision''"
  have m0: "(case map_of blank_table (list_url V1beta) of Some a \<Rightarrow> a | None \<Rightarrow> Rejected ''fetch failed'')
      = Response 200 catalog_body"
    by (simp add: blank_table_def)
  have m1: "(case map_of blank_table ?u1 of Some a \<Rightarrow> a | None \<Rightarrow> Rejected ''fetch failed'')
      = Response 200 blank_body"
    by (simp add: blank_table_def list_url_def generate_url_def)
  have m2: "(case map_of blank_table ?u2 of Some a \<Rightarrow> a | None \<Rightarrow> Rejected ''fetch failed'')
      = Response 200 answer_body"
    by (simp add: blank_table_def list_url_def generate_url_def)
  have n1: "\<not> retryable (Response 200 blank_body)" and n2: "\<not> retryable (Response 200 answer_body)"
    by (simp_all add: retryable_def isRetryableStatus_def)
  have g1: "generated demo_parse V1beta ''gemini-2.0-flash-lite'' (outcome_of (Response 200 blank_body))
      = Inl (empty_msg V1beta ''gemini-2.0-flash-lite'' blank_body)"
    by (simp add: outcome_of_def demo_blank)
  have g2: "generated demo_parse V1beta ''gemini-pro-vision'' (outcome_of (Response 200 answer_body))
      = Inr ''Hello''"
    by (simp add: outcome_of_def demo_answer)
  have stop: "\<not> isGeminiNotFoundOrUnsupported (empty_msg V1beta ''gemini-2.0-flash-lite'' blank_body)"
    using no_marker_blank no_marker_demo by (simp add: isGemini_empty_msg)
  show ?thesis
    by (simp add: generateWithAutoPick_def listModels_table m0 demo_listed demo_candidates
          try_candidates_try demo_skipped generateContent_table [OF m1 n1] generateContent_table [OF m2 n2]
          g1 g2 stop)
qed

section \<open>Two runs against a stable upstream\<close>

text \<open>
  Claim C8. Take two runs of the selection with the same key and prompt, on networks and from
  worlds that may differ, but such that the listing of each version has the same outcome
  whenever it is made, and the generation for each version and model either succeeds whenever
  it is made or fails with the same error whenever it is made. Then both runs select the same
  version and model, or both throw the same error; the generated texts may differ.
\<close>

theorem selection_is_deterministic:
  assumes "\<forall>v s s'. fst (listModels f1 JSON_parse v apiKey s) = fst (listModels f2 JSON_parse v apiKey s')"
    and "\<forall>v m s s'. error_of (fst (generateContent f1 JSON_parse v m apiKey prompt s)) =
                     error_of (fst (generateContent f2 JSON_parse v m apiKey prompt s'))"
  shows "selection (fst (generateWithAutoPick f1 JSON_parse apiKey prompt s1)) =
         selection (fst (generateWithAutoPick f2 JSON_parse apiKey prompt s2))"
  unfolding generateWithAutoPick_def using assms by (rule try_versions_stable)

text \<open>Two runs against the same table of replies, from different worlds and logs: both select
  the preferred model on the secondary version.\<close>

theorem selection_is_deterministic_witness:
  "selection (fst (generateWithAutoPick (table_fetch secondary_only) demo_parse ''key'' ''hi'' (0::nat, []))) =
   selection (fst (generateWithAutoPick (table_fetch secondary_only) demo_parse ''key'' ''hi''
                     (7::nat, [Sleep 800]))) \<and>
   selection (fst (generateWithAutoPick (table_fetch secondary_only) demo_parse ''key'' ''hi'' (0::nat, []))) =
     Inr (V1, ''gemini-2.0-flash-lite'')"
proof -
  let ?f = "table_fetch secondary_only :: nat fetch"
  have h1: "\<forall>v s s'. fst (listModels ?f demo_parse v ''key'' s) = fst (listModels ?f demo_parse v ''key'' s')"
    by (simp add: listModels_table split_paired_all)
  have h2: "\<forall>v m s s'. error_of (fst (generateContent ?f demo_parse v m ''key'' ''hi'' s)) =
                     error_of (fst (generateContent ?f demo_parse v m ''key'' ''hi'' s'))"
    by (simp add: generateContent_table_result)
  have same: "selection (fst (generateWithAutoPick ?f demo_parse ''key'' ''hi'' (0, []))) =
      selection (fst (generateWithAutoPick ?f demo_parse ''key'' ''hi'' (7, [Sleep 800])))"
    using selection_is_deterministic [of ?f demo_parse "''key''" ?f "''hi''" "(0, [])" "(7, [Sleep 800])"] h1 h2
    by blast
  have m0: "(case map_of secondary_only (list_url V1beta) of Some a \<Rightarrow> a | None \<Rightarrow> Rejected ''fetch failed'')
      = Rejected ''fetch failed''"
    by (simp add: secondary_only_def list_url_def generate_url_def)
  have m1: "(case map_of secondary_only (list_url V1) of Some a \<Rightarrow> a | None \<Rightarrow> Rejected ''fetch failed'')
      = Response 200 catalog_body"
    by (simp add: secondary_only_def)
  have m2: "(case map_of secondary_only (generate_url V1 ''gemini-2.0-flash-lite'') of Some a \<Rightarrow> a
       | None \<Rightarrow> Rejected ''fetch failed'') = Response 200 answer_body"
    by (simp add: secondary_only_def list_url_def generate_url_def)
  have nr: "\<not> retryable (Response 200 answer_body)"
    by (simp add: retryable_def isRetryableStatus_def)
  have g2: "generated demo_parse V1 ''gemini-2.0-flash-lite'' (outcome_of (Response 200 answer_body))
      = Inr ''Hello''"
    by (simp add: outcome_of_def demo_answer)
  have "selection (fst (generateWithAutoPick ?f demo_parse ''key'' ''hi'' (0, []))) =
      Inr (V1, ''gemini-2.0-flash-lite'')"
    by (simp add: generateWithAutoPick_def listModels_table m0 m1 listed_def [of _ _ "Rejected _"]
          demo_listed demo_candidates try_candidates_try demo_skipped generateContent_table [OF m2 nr] g2
          selection_def)
  with same show ?thesis by simp
qed

section \<open>The candidates and the order in which they are tried\<close>

text \<open>
  Claim C4. For every catalog, the candidates are the names of the preference list that are
  available, in the order of that list, followed by the available names that are not on the
  preference list, in catalog order, each once. The loop requests the candidates that the
  capability filter lets through in exactly that order, up to the point where it stops. Hence,
  when a model that is not preferred is requested, every preferred model that is available and
  passes the filter was requested before it.
\<close>

theorem candidate_order:
  "candidates_of (available_of models) =
     filter (\<lambda>p. p \<in> set (available_of models)) preferred @
     filter (\<lambda>a. a \<notin> set preferred) (first_occurrences (available_of models)) \<and>
   (\<exists>evs n.
      snd (snd (try_candidates fetch JSON_parse version apiKey prompt (generateCapable_of models)
                  (candidates_of (available_of models)) (w, log))) = log @ evs \<and>
      attempt_order evs =
        map (generate_url version)
          (take n (attemptable (generateCapable_of models) (candidates_of (available_of models)))) \<and>
      (p \<in> set preferred \<and> p \<in> set (available_of models) \<and>
       \<not> skipped (generateCapable_of models) p \<and>
       q \<in> set (available_of models) \<and> q \<notin> set preferred \<and>
       generate_url version q \<in> set (attempt_order evs) \<longrightarrow>
       (\<exists>xs ys zs. attempt_order evs =
          xs @ generate_url version p # ys @ generate_url version q # zs)))"
proof -
  let ?cs = "candidates_of (available_of models)" and ?gc = "generateCapable_of models"
  obtain evs n where log: "snd (snd (try_candidates fetch JSON_parse version apiKey prompt ?gc ?cs (w, log)))
        = log @ evs"
    and ord: "attempt_order evs = map (generate_url version) (take n (attemptable ?gc ?cs))"
    using try_candidates_order [OF distinct_candidates_of, of fetch JSON_parse version apiKey prompt ?gc
        "available_of models" w log] by blast
  have "\<exists>xs ys zs. attempt_order evs = xs @ generate_url version p # ys @ generate_url version q # zs"
    if h: "p \<in> set preferred" "p \<in> set (available_of models)" "\<not> skipped ?gc p"
      "q \<in> set (available_of models)" "q \<notin> set preferred"
      "generate_url version q \<in> set (attempt_order evs)"
  proof -
    obtain xs ys zs where cs: "?cs = xs @ p # ys @ q # zs"
      using preferred_before_others [OF h(1,2,4,5)] by blast
    have "q \<in> set (take n (attemptable ?gc ?cs))"
      using h(6) unfolding ord by auto
    then obtain a b c where "take n (attemptable ?gc ?cs) = a @ p # b @ q # c"
      using ordered_attempts [OF cs distinct_candidates_of h(3)] by blast
    then have "attempt_order evs = map (generate_url version) a @ generate_url version p #
        map (generate_url version) b @ generate_url version q # map (generate_url version) c"
      unfolding ord by simp
    then show ?thesis by blast
  qed
  then show ?thesis
    using candidates_of_eq [of "available_of models"] log ord by blast
qed

text \<open>On the catalog of the examples the preferred model comes first although the catalog lists
  it third, and in a run that requests two models it is requested first.\<close>

theorem candidate_order_witness:
  "candidates_of (available_of demo_models) =
     [''gemini-2.0-flash-lite'', ''gemini-pro-vision'', ''embedding-001'', ''gemini-exp''] \<and>
   (\<exists>xs ys zs.
      attempt_order (snd (snd (try_candidates (table_fetch gone_then_denied) demo_parse V1beta ''key'' ''hi''
          (generateCapable_of demo_models) (candidates_of (available_of demo_models)) ((), [])))) =
      xs @ generate_url V1beta ''gemini-2.0-flash-lite'' # ys @
        generate_url V1beta ''gemini-pro-vision'' # zs)"
proof -
  let ?f = "table_fetch gone_then_denied :: unit fetch"
  let ?u1 = "generate_url V1beta ''gemini-2.0-flash-lite''"
  let ?u2 = "generate_url V1beta ''gemini-pro-vision''"
  let ?i = "generate_init ''key'' ''hi''"
  let ?gc = "generateCapable_of demo_models"
  let ?cs = "candidates_of (available_of demo_models)"
  let ?run = "snd (snd (try_candidates ?f demo_parse V1beta ''key'' ''hi'' ?gc ?cs ((), [])))"
  have m1: "(case map_of gone_then_denied ?u1 of Some a \<Rightarrow> a | None \<Rightarrow> Rejected ''fetch failed'')
      = Response 404 ''gone''"
    by (simp add: gone_then_denied_def list_url_def generate_url_def)
  have m2: "(case map_of gone_then_denied ?u2 of Some a \<Rightarrow> a | None \<Rightarrow> Rejected ''fetch failed'')
      = Response 401 ''denied''"
    by (simp add: gone_then_denied_def list_url_def generate_url_def)
  have n1: "\<not> retryable (Response 404 ''gone'')" and n2: "\<not> retryable (Response 401 ''denied'')"
    by (simp_all add: retryable_def isRetryableStatus_def)
  have g1: "generated demo_parse V1beta ''gemini-2.0-flash-lite'' (outcome_of (Response 404 ''gone''))
      = Inl (failed_msg V1beta ''gemini-2.0-flash-lite'' 404 ''gone'')"
    by (simp add: generated_not_ok resp_ok_def)
  have g2: "generated demo_parse V1beta ''gemini-pro-vision'' (outcome_of (Response 401 ''denied''))
      = Inl (failed_msg V1beta ''gemini-pro-vision'' 401 ''denied'')"
    by (simp add: generated_not_ok resp_ok_def)
  have c1: "isGeminiNotFoundOrUnsupported (failed_msg V1beta ''gemini-2.0-flash-lite'' 404 ''gone'')"
    by (simp add: isGemini_failed_msg show_nat_404)
  have c2: "\<not> isGeminiNotFoundOrUnsupported (failed_msg V1beta ''gemini-pro-vision'' 401 ''denied'')"
    using no_marker_demo by (simp add: isGemini_failed_msg prefix_404_show_nat)
  have run: "?run =
      [Fetch ?u1 ?i 30000,
       Warn (''[WARN] generateContent failed: '' @ failed_msg V1beta ''gemini-2.0-flash-lite'' 404 ''gone''),
       Fetch ?u2 ?i 30000,
       Warn (''[WARN] generateContent failed: '' @ failed_msg V1beta ''gemini-pro-vision'' 401 ''denied'')]"
    by (simp add: demo_candidates try_candidates_try demo_skipped generateContent_table [OF m1 n1]
          generateContent_table [OF m2 n2] g1 g2 c1 c2)
  obtain evs n where e: "?run = [] @ evs"
    and imp: "''gemini-2.0-flash-lite'' \<in> set preferred \<and>
       ''gemini-2.0-flash-lite'' \<in> set (available_of demo_models) \<and>
       \<not> skipped ?gc ''gemini-2.0-flash-lite'' \<and>
       ''gemini-pro-vision'' \<in> set (available_of demo_models) \<and> ''gemini-pro-vision'' \<notin> set preferred \<and>
       ?u2 \<in> set (attempt_order evs) \<longrightarrow>
       (\<exists>xs ys zs. attempt_order evs = xs @ ?u1 # ys @ ?u2 # zs)"
    using candidate_order [of demo_models ?f demo_parse V1beta "''key''" "''hi''" "()" "[]"
        "''gemini-2.0-flash-lite''" "''gemini-pro-vision''"] by blast
  have evs: "evs = ?run" using e by simp
  have "?u2 \<in> set (attempt_order ?run)"
    unfolding run by (simp add: attempt_order_def)
  moreover have "''gemini-2.0-flash-lite'' \<in> set preferred" "''gemini-pro-vision'' \<notin> set preferred"
    by (simp_all add: preferred_def)
  moreover have "''gemini-2.0-flash-lite'' \<in> set (available_of demo_models)"
      "''gemini-pro-vision'' \<in> set (available_of demo_models)"
    by (simp_all add: demo_available)
  ultimately have "\<exists>xs ys zs. attempt_order ?run = xs @ ?u1 # ys @ ?u2 # zs"
    using imp demo_skipped(1) unfolding evs by blast
  then show ?thesis using demo_candidates by blast
qed

end
